theory Spec2Isabelle
  imports Complex_Main "HOL-Library.Sublist"
begin

section \<open>Strings of the runtime\<close>

text \<open>
  A string is a list of code units; a \<open>char\<close> stands for the code unit with the same
  number (0 to 255, the Latin-1 range). The white space of \<open>String.prototype.trim\<close>
  and of the regular-expression class \<open>\s\<close> is the same set; in this range it is
  TAB, LF, VT, FF, CR, SPACE and NBSP.
\<close>

definition isWhiteSpace :: "char \<Rightarrow> bool" where
  "isWhiteSpace c = ((of_char c :: nat) \<in> {9, 10, 11, 12, 13, 32, 160})"

definition trim :: "string \<Rightarrow> string" where
  "trim s = rev (dropWhile isWhiteSpace (rev (dropWhile isWhiteSpace s)))"

text \<open>
  \<open>toLowerCase\<close> in the Latin-1 range: A to Z, and the accented capitals 192 to 222
  except the multiplication sign 215, move up by 32; every other code unit stays.
\<close>

definition toLowerChar :: "char \<Rightarrow> char" where
  "toLowerChar c =
     (let n = (of_char c :: nat)
      in if (65 \<le> n \<and> n \<le> 90) \<or> (192 \<le> n \<and> n \<le> 222 \<and> n \<noteq> 215)
         then char_of (n + 32) else c)"

definition toLowerCase :: "string \<Rightarrow> string" where
  "toLowerCase s = map toLowerChar s"

text \<open>\<open>s.includes(k)\<close>: \<open>k\<close> occurs in \<open>s\<close> as a contiguous block.\<close>

definition includes_str :: "string \<Rightarrow> string \<Rightarrow> bool" where
  "includes_str s k = sublist k s"

subsection \<open>Digits\<close>

text \<open>
  The value of a digit (decimal or hexadecimal), the decimal digits, the value of a
  run of decimal digits, and a rational times a power of ten.
\<close>

definition digitValue :: "char \<Rightarrow> nat option" where
  "digitValue c =
     (let n = (of_char c :: nat)
      in if 48 \<le> n \<and> n \<le> 57 then Some (n - 48)
         else if 97 \<le> n \<and> n \<le> 102 then Some (n - 87)
         else if 65 \<le> n \<and> n \<le> 70 then Some (n - 55)
         else None)"

definition isDecimalDigit :: "char \<Rightarrow> bool" where
  "isDecimalDigit c = (let n = (of_char c :: nat) in 48 \<le> n \<and> n \<le> 57)"

definition decimalValue :: "string \<Rightarrow> nat" where
  "decimalValue ds = foldl (\<lambda>a c. a * 10 + (of_char c - 48)) 0 ds"

definition scale10 :: "rat \<Rightarrow> int \<Rightarrow> rat" where
  "scale10 q k = (if 0 \<le> k then q * 10 ^ nat k else q / 10 ^ nat (- k))"

section \<open>Regular expressions: the pattern of \<open>isValidEmail\<close>\<close>

datatype rexp =
    RNone
  | REps
  | RClass "char \<Rightarrow> bool"
  | RAlt rexp rexp
  | RSeq rexp rexp
  | RStar rexp

fun nullable :: "rexp \<Rightarrow> bool" where
  "nullable RNone = False"
| "nullable REps = True"
| "nullable (RClass p) = False"
| "nullable (RAlt r s) = (nullable r \<or> nullable s)"
| "nullable (RSeq r s) = (nullable r \<and> nullable s)"
| "nullable (RStar r) = True"

fun deriv :: "char \<Rightarrow> rexp \<Rightarrow> rexp" where
  "deriv c RNone = RNone"
| "deriv c REps = RNone"
| "deriv c (RClass p) = (if p c then REps else RNone)"
| "deriv c (RAlt r s) = RAlt (deriv c r) (deriv c s)"
| "deriv c (RSeq r s) =
     (if nullable r then RAlt (RSeq (deriv c r) s) (deriv c s) else RSeq (deriv c r) s)"
| "deriv c (RStar r) = RSeq (deriv c r) (RStar r)"

fun derivs :: "string \<Rightarrow> rexp \<Rightarrow> rexp" where
  "derivs [] r = r"
| "derivs (c # cs) r = derivs cs (deriv c r)"

text \<open>\<open>/^r$/.test(s)\<close>: the whole of \<open>s\<close> matches \<open>r\<close>.\<close>

definition test :: "rexp \<Rightarrow> string \<Rightarrow> bool" where
  "test r s = nullable (derivs s r)"

definition RPlus :: "rexp \<Rightarrow> rexp" where
  "RPlus r = RSeq r (RStar r)"

text \<open>The character classes that occur in an expression.\<close>

primrec classes :: "rexp \<Rightarrow> (char \<Rightarrow> bool) set" where
  "classes RNone = {}"
| "classes REps = {}"
| "classes (RClass p) = {p}"
| "classes (RAlt r s) = classes r \<union> classes s"
| "classes (RSeq r s) = classes r \<union> classes s"
| "classes (RStar r) = classes r"

section \<open>JSON\<close>

text \<open>
  A JSON value as \<open>JSON.parse\<close> returns it. A string of a value is a list of code
  units given by their numbers, since an escape \<open>\uXXXX\<close> can denote any of them.
  A number is kept exact, as a rational: the rounding to a double is not part of this
  model. An object is the list of its properties in their order, each key once.
\<close>

datatype json =
    JNull
  | JBool bool
  | JNumber rat
  | JString "nat list"
  | JArray "json list"
  | JObject "(nat list \<times> json) list"

text \<open>\<open>Array.isArray(v)\<close>, and the elements of an array.\<close>

fun isArray :: "json \<Rightarrow> bool" where
  "isArray (JArray vs) = True"
| "isArray v = False"

fun elements :: "json \<Rightarrow> json list" where
  "elements (JArray vs) = vs"
| "elements v = []"

datatype token =
    TLBrace | TRBrace | TLBracket | TRBracket | TColon | TComma
  | TString "nat list" | TNumber rat | TTrue | TFalse | TNull

subsection \<open>The lexer\<close>

definition hex4 :: "char \<Rightarrow> char \<Rightarrow> char \<Rightarrow> char \<Rightarrow> nat option" where
  "hex4 a b c d =
     (case (digitValue a, digitValue b, digitValue c, digitValue d) of
        (Some w, Some x, Some y, Some z) \<Rightarrow> Some (((w * 16 + x) * 16 + y) * 16 + z)
      | _ \<Rightarrow> None)"

text \<open>
  The characters of a string after its opening quote, up to the closing quote: the
  code units, and the text after the closing quote.
\<close>

fun lexString :: "string \<Rightarrow> (nat list \<times> string) option" where
  "lexString [] = None"
| "lexString (c # cs) =
     (if c = CHR 0x22 then Some ([], cs)
      else if c = CHR 0x5C then
        (case cs of
           [] \<Rightarrow> None
         | e # r \<Rightarrow>
             if e = CHR ''u'' then
               (case r of
                  a # b # x # y # r' \<Rightarrow>
                    (case hex4 a b x y of
                       None \<Rightarrow> None
                     | Some n \<Rightarrow> map_option (\<lambda>(s, t). (n # s, t)) (lexString r'))
                | _ \<Rightarrow> None)
             else
               (case (if e = CHR 0x22 then Some 34 else if e = CHR 0x5C then Some 92
                      else if e = CHR ''/'' then Some 47 else if e = CHR ''b'' then Some 8
                      else if e = CHR ''f'' then Some 12 else if e = CHR ''n'' then Some 10
                      else if e = CHR ''r'' then Some 13 else if e = CHR ''t'' then Some 9
                      else None) of
                  None \<Rightarrow> None
                | Some (n::nat) \<Rightarrow> map_option (\<lambda>(s, t). (n # s, t)) (lexString r)))
      else if (of_char c :: nat) < 32 then None
      else map_option (\<lambda>(s, t). (of_char c # s, t)) (lexString cs))"

text \<open>
  A number: an optional minus sign, the integer part (\<open>0\<close>, or digits that do not
  start with \<open>0\<close>), an optional fraction (a dot and digits), an optional exponent
  (\<open>e\<close> or \<open>E\<close>, an optional sign, digits). The result is its value and the text
  after it.
\<close>

definition intPart :: "string \<Rightarrow> (string \<times> string) option" where
  "intPart s =
     (if s \<noteq> [] \<and> hd s = CHR ''0'' then Some (''0'', tl s)
      else if takeWhile isDecimalDigit s = [] then None
      else Some (takeWhile isDecimalDigit s, dropWhile isDecimalDigit s))"

definition fracPart :: "string \<Rightarrow> (string \<times> string) option" where
  "fracPart s =
     (if s \<noteq> [] \<and> hd s = CHR ''.'' then
        (if takeWhile isDecimalDigit (tl s) = [] then None
         else Some (takeWhile isDecimalDigit (tl s), dropWhile isDecimalDigit (tl s)))
      else Some ([], s))"

definition expPart :: "string \<Rightarrow> (int \<times> string) option" where
  "expPart s =
     (if s \<noteq> [] \<and> (hd s = CHR ''e'' \<or> hd s = CHR ''E'') then
        let r = tl s;
            sg = (r \<noteq> [] \<and> (hd r = CHR ''+'' \<or> hd r = CHR ''-''));
            d = (if sg then tl r else r)
        in if takeWhile isDecimalDigit d = [] then None
           else Some (if sg \<and> hd r = CHR ''-'' then - int (decimalValue (takeWhile isDecimalDigit d))
                      else int (decimalValue (takeWhile isDecimalDigit d)),
                      dropWhile isDecimalDigit d)
      else Some (0, s))"

definition lexNumber :: "string \<Rightarrow> (rat \<times> string) option" where
  "lexNumber s =
     (let neg = (s \<noteq> [] \<and> hd s = CHR ''-'')
      in case intPart (if neg then tl s else s) of
           None \<Rightarrow> None
         | Some (ip, s2) \<Rightarrow>
             (case fracPart s2 of
                None \<Rightarrow> None
              | Some (fp, s3) \<Rightarrow>
                  (case expPart s3 of
                     None \<Rightarrow> None
                   | Some (k, s4) \<Rightarrow>
                       let v = scale10 (rat_of_nat (decimalValue (ip @ fp))) (k - int (length fp))
                       in Some (if neg then - v else v, s4))))"

definition isSpace :: "char \<Rightarrow> bool" where
  "isSpace c = ((of_char c :: nat) \<in> {9, 10, 13, 32})"

function lex :: "string \<Rightarrow> token list option" where
  "lex [] = Some []"
| "lex (c # cs) =
     (if isSpace c then lex cs
      else if c = CHR ''{'' then map_option ((#) TLBrace) (lex cs)
      else if c = CHR ''}'' then map_option ((#) TRBrace) (lex cs)
      else if c = CHR ''['' then map_option ((#) TLBracket) (lex cs)
      else if c = CHR '']'' then map_option ((#) TRBracket) (lex cs)
      else if c = CHR '':'' then map_option ((#) TColon) (lex cs)
      else if c = CHR '','' then map_option ((#) TComma) (lex cs)
      else if c = CHR 0x22 then
        (case lexString cs of
           None \<Rightarrow> None
         | Some (s, r) \<Rightarrow> map_option ((#) (TString s)) (lex r))
      else if c = CHR ''-'' \<or> isDecimalDigit c then
        (case lexNumber (c # cs) of
           None \<Rightarrow> None
         | Some (q, r) \<Rightarrow> map_option ((#) (TNumber q)) (lex r))
      else if prefix ''true'' (c # cs) then map_option ((#) TTrue) (lex (drop 3 cs))
      else if prefix ''false'' (c # cs) then map_option ((#) TFalse) (lex (drop 4 cs))
      else if prefix ''null'' (c # cs) then map_option ((#) TNull) (lex (drop 3 cs))
      else None)"
  by pat_completeness auto

text \<open>The lexer ends: what a string or a number leaves is shorter than the text.\<close>

lemma lexString_length: "lexString s = Some (x, r) \<Longrightarrow> length r < length s"
proof (induction s arbitrary: x r rule: length_induct)
  case (1 s)
  show ?case
  proof (cases s)
    case Nil
    with "1.prems" show ?thesis by simp
  next
    case (Cons c cs)
    have ih: "length r' < length t" if "lexString t = Some (y, r')" "length t < length s"
      for t y r'
      using "1.IH" that by blast
    from "1.prems" show ?thesis
      unfolding Cons lexString.simps
      by (auto split: if_splits list.splits option.splits
          dest!: ih [unfolded Cons] simp: less_Suc_eq)
  qed
qed

lemma intPart_length: "intPart s = Some (d, r) \<Longrightarrow> length r < length s"
proof -
  assume a: "intPart s = Some (d, r)"
  have "length (dropWhile isDecimalDigit s) < length s" if "takeWhile isDecimalDigit s \<noteq> []"
  proof -
    have "length (takeWhile isDecimalDigit s) + length (dropWhile isDecimalDigit s) = length s"
      by (metis length_append takeWhile_dropWhile_id)
    with that show ?thesis by (cases "takeWhile isDecimalDigit s") auto
  qed
  with a show ?thesis
    by (cases s) (auto simp: intPart_def split: if_splits)
qed

lemma fracPart_length: "fracPart s = Some (d, r) \<Longrightarrow> length r \<le> length s"
  by (cases s)
     (auto simp: fracPart_def split: if_splits
       intro: le_trans [OF length_dropWhile_le] le_SucI)

lemma expPart_length: "expPart s = Some (k, r) \<Longrightarrow> length r \<le> length s"
proof -
  assume a: "expPart s = Some (k, r)"
  have d: "length (dropWhile isDecimalDigit t) \<le> length t" for t
    by (rule length_dropWhile_le)
  have t: "length (tl t) \<le> length t" for t :: string
    by simp
  from a show ?thesis
    using d [of "tl s"] d [of "tl (tl s)"] t [of s] t [of "tl s"]
    by (auto simp: expPart_def Let_def split: if_splits)
qed

lemma lexNumber_length: "lexNumber s = Some (q, r) \<Longrightarrow> length r < length s"
proof -
  assume a: "lexNumber s = Some (q, r)"
  let ?s1 = "if s \<noteq> [] \<and> hd s = CHR ''-'' then tl s else s"
  from a obtain ip s2 fp s3 k where
    i: "intPart ?s1 = Some (ip, s2)" and f: "fracPart s2 = Some (fp, s3)"
    and e: "expPart s3 = Some (k, r)"
    by (auto simp: lexNumber_def Let_def split: option.splits)
  have "length ?s1 \<le> length s" by simp
  with intPart_length [OF i] fracPart_length [OF f] expPart_length [OF e]
  show ?thesis by linarith
qed

termination lex
proof (relation "measure length", goal_cases)
  case 1
  show ?case by simp
next
  case (2 c cs)
  show ?case by simp
next
  case (3 c cs)
  show ?case by simp
next
  case (4 c cs)
  show ?case by simp
next
  case (5 c cs)
  show ?case by simp
next
  case (6 c cs)
  show ?case by simp
next
  case (7 c cs)
  show ?case by simp
next
  case (8 c cs)
  show ?case by simp
next
  case (9 c cs x s r)
  then show ?case using lexString_length [of cs s r] by simp
next
  case (10 c cs x q r)
  then show ?case using lexNumber_length [of "c # cs" q r] by simp
next
  case (11 c cs)
  show ?case by simp
next
  case (12 c cs)
  show ?case by simp
next
  case (13 c cs)
  show ?case by simp
qed

subsection \<open>The parser\<close>

text \<open>
  The parser reads the tokens one by one. It keeps the stack of the arrays and objects
  that are open, the innermost first, and what it expects next. A property that is
  given twice keeps its first place and takes the last value.
\<close>

datatype frame =
    InArray "json list"
  | InObject "(nat list \<times> json) list" "nat list option"

datatype expect =
    Value
  | ValueOrClose
  | KeyOrClose
  | Key
  | Colon
  | CommaOrClose
  | Finished json

fun setProperty :: "nat list \<Rightarrow> json \<Rightarrow> (nat list \<times> json) list \<Rightarrow> (nat list \<times> json) list" where
  "setProperty k v [] = [(k, v)]"
| "setProperty k v ((k', v') # ps) =
     (if k' = k then (k, v) # ps else (k', v') # setProperty k v ps)"

text \<open>A value is complete: it goes into the innermost open array or object.\<close>

fun complete :: "json \<Rightarrow> frame list \<Rightarrow> (frame list \<times> expect) option" where
  "complete v [] = Some ([], Finished v)"
| "complete v (InArray es # st) = Some (InArray (es @ [v]) # st, CommaOrClose)"
| "complete v (InObject ps (Some k) # st) =
     Some (InObject (setProperty k v ps) None # st, CommaOrClose)"
| "complete v (InObject ps None # st) = None"

definition isValueStart :: "expect \<Rightarrow> bool" where
  "isValueStart e = (e = Value \<or> e = ValueOrClose)"

fun step :: "frame list \<times> expect \<Rightarrow> token \<Rightarrow> (frame list \<times> expect) option" where
  "step (st, e) TNull = (if isValueStart e then complete JNull st else None)"
| "step (st, e) TTrue = (if isValueStart e then complete (JBool True) st else None)"
| "step (st, e) TFalse = (if isValueStart e then complete (JBool False) st else None)"
| "step (st, e) (TNumber q) = (if isValueStart e then complete (JNumber q) st else None)"
| "step (st, e) (TString s) =
     (if isValueStart e then complete (JString s) st
      else if e = KeyOrClose \<or> e = Key then
        (case st of
           InObject ps None # st' \<Rightarrow> Some (InObject ps (Some s) # st', Colon)
         | _ \<Rightarrow> None)
      else None)"
| "step (st, e) TLBracket =
     (if isValueStart e then Some (InArray [] # st, ValueOrClose) else None)"
| "step (st, e) TLBrace =
     (if isValueStart e then Some (InObject [] None # st, KeyOrClose) else None)"
| "step (st, e) TRBracket =
     (if e = ValueOrClose \<or> e = CommaOrClose then
        (case st of
           InArray es # st' \<Rightarrow>
             if e = ValueOrClose \<and> es \<noteq> [] then None else complete (JArray es) st'
         | _ \<Rightarrow> None)
      else None)"
| "step (st, e) TRBrace =
     (if e = KeyOrClose \<or> e = CommaOrClose then
        (case st of
           InObject ps None # st' \<Rightarrow> complete (JObject ps) st'
         | _ \<Rightarrow> None)
      else None)"
| "step (st, e) TColon = (if e = Colon then Some (st, Value) else None)"
| "step (st, e) TComma =
     (if e = CommaOrClose then
        (case st of
           InArray es # st' \<Rightarrow> Some (st, Value)
         | InObject ps None # st' \<Rightarrow> Some (st, Key)
         | _ \<Rightarrow> None)
      else None)"

fun run :: "frame list \<times> expect \<Rightarrow> token list \<Rightarrow> (frame list \<times> expect) option" where
  "run s [] = Some s"
| "run s (t # ts) = (case step s t of None \<Rightarrow> None | Some s' \<Rightarrow> run s' ts)"

definition JSON_parse :: "string \<Rightarrow> json option" where
  "JSON_parse text =
     (case lex text of
        None \<Rightarrow> None
      | Some ts \<Rightarrow>
          (case run ([], Value) ts of
             Some ([], Finished v) \<Rightarrow> Some v
           | _ \<Rightarrow> None))"

section \<open>Data model\<close>

text \<open>
  \<open>type User = { id: string; name: string; email: string; age?: number }\<close>.
  The field \<open>id\<close> is written \<open>id'\<close>. An age that is absent (or \<open>undefined\<close>) is
  \<open>None\<close>; the ages of this model are integers, as are the ages that
  \<open>parseOptionalAge\<close> returns.
\<close>

record user =
  id' :: string
  name :: string
  email :: string
  age :: "int option"

text \<open>
  \<open>Partial<Omit<User, "id">>\<close>: each of the three fields is given or left out, as in
  the object that \<open>handleUpdate\<close> builds.
\<close>

record updates =
  upd_name :: "string option"
  upd_email :: "string option"
  upd_age :: "int option"

text \<open>
  The program throws plain \<open>Error\<close> objects that differ in their message. Each
  constructor is one \<open>throw\<close> of the source (messages quoted without diacritics):
  \<^item> \<open>EmailInvalid\<close>: "Email khong hop le." (a validation error);
  \<^item> \<open>EmailExists\<close>: "Email da ton tai." (a conflict);
  \<^item> \<open>EmailExistsOther\<close>: "Email da ton tai o user khac." (a conflict);
  \<^item> \<open>UpdateNotFound\<close>: "Khong tim thay User voi id da nhap." (not found);
  \<^item> \<open>DeleteNotFound\<close>: "Khong tim thay User de xoa." (not found);
  \<^item> \<open>FieldEmpty f\<close>: "f khong duoc de trong." (a validation error);
  \<^item> \<open>AgeInvalid\<close>: "Tuoi phai la so nguyen trong khoang 0-150." (a validation error);
  \<^item> \<open>ReadFailure\<close>: \<open>fs.readFile\<close> rejected with a code other than ENOENT;
  \<^item> \<open>WriteFailure\<close>: \<open>fs.writeFile\<close> rejected;
  \<^item> \<open>SyntaxError\<close>: \<open>JSON.parse\<close> threw.
  The last one, \<open>IllTyped\<close>, is no error of the program: it marks the file whose
  array is not a \<open>User[]\<close>. The cast \<open>as User[]\<close> is unchecked, and the program goes
  on with values that the type \<open>user\<close> does not have; the model stops there.
\<close>

datatype error =
    EmailInvalid
  | EmailExists
  | EmailExistsOther
  | UpdateNotFound
  | DeleteNotFound
  | FieldEmpty string
  | AgeInvalid
  | ReadFailure
  | WriteFailure
  | SyntaxError
  | IllTyped

text \<open>The four kinds of error of the specification, and the mark of \<open>IllTyped\<close>.\<close>

datatype error_kind = ValidationError | ConflictError | NotFoundError | IOError | Unmodelled

fun kind :: "error \<Rightarrow> error_kind" where
  "kind EmailInvalid = ValidationError"
| "kind (FieldEmpty f) = ValidationError"
| "kind AgeInvalid = ValidationError"
| "kind EmailExists = ConflictError"
| "kind EmailExistsOther = ConflictError"
| "kind UpdateNotFound = NotFoundError"
| "kind DeleteNotFound = NotFoundError"
| "kind ReadFailure = IOError"
| "kind WriteFailure = IOError"
| "kind SyntaxError = IOError"
| "kind IllTyped = Unmodelled"

text \<open>
  The backing file \<open>DATA_FILE\<close>, \<open>data/users.json\<close> beside the program. Its directory
  does not exist (\<open>NoDirectory\<close>), or the directory exists and the file does not
  (\<open>Missing\<close>), or the file cannot be read (\<open>Unreadable\<close>), or it has a text.
  The program never creates the directory.
\<close>

datatype disk = NoDirectory | Missing | Unreadable | Text string

text \<open>
  A promise of \<open>fs\<close> is fulfilled with a value, or rejected with the code ENOENT, or
  rejected with another code.
\<close>

datatype 'a settled = Fulfilled 'a | ENOENT | Rejected

text \<open>
  \<open>fs.readFile(DATA_FILE, "utf8")\<close> and \<open>fs.writeFile(DATA_FILE, text, "utf8")\<close>.
  Reading rejects with ENOENT when the file or its directory does not exist. Writing
  creates or replaces the file; it rejects with ENOENT when the directory does not
  exist, and is taken to succeed otherwise.
\<close>

definition readFile :: "disk \<Rightarrow> string settled" where
  "readFile f =
     (case f of
        NoDirectory \<Rightarrow> ENOENT
      | Missing \<Rightarrow> ENOENT
      | Unreadable \<Rightarrow> Rejected
      | Text raw \<Rightarrow> Fulfilled raw)"

definition writeFile :: "string \<Rightarrow> disk \<Rightarrow> unit settled \<times> disk" where
  "writeFile content f =
     (case f of
        NoDirectory \<Rightarrow> (ENOENT, NoDirectory)
      | _ \<Rightarrow> (Fulfilled (), Text content))"

subsection \<open>\<open>JSON.stringify(users, null, 2)\<close>\<close>

text \<open>
  The text of a list of records, indented by two spaces a level. A string is quoted:
  the quote and the backslash are escaped, the control characters are written
  \<open>\b\<close>, \<open>\t\<close>, \<open>\n\<close>, \<open>\f\<close>, \<open>\r\<close> or \<open>\u00XX\<close>. An integer is written in
  decimal. A property whose value is \<open>undefined\<close> (an absent age) is left out.
\<close>

definition hexDigit :: "nat \<Rightarrow> char" where
  "hexDigit d = char_of (if d < 10 then 48 + d else 87 + d)"

definition quoteChar :: "char \<Rightarrow> string" where
  "quoteChar c =
     (let n = (of_char c :: nat)
      in if n = 8 then [CHR 0x5C, CHR ''b'']
         else if n = 9 then [CHR 0x5C, CHR ''t'']
         else if n = 10 then [CHR 0x5C, CHR ''n'']
         else if n = 12 then [CHR 0x5C, CHR ''f'']
         else if n = 13 then [CHR 0x5C, CHR ''r'']
         else if n < 32 then
           [CHR 0x5C, CHR ''u'', CHR ''0'', CHR ''0'', hexDigit (n div 16), hexDigit (n mod 16)]
         else if n = 34 then [CHR 0x5C, CHR 0x22]
         else if n = 92 then [CHR 0x5C, CHR 0x5C]
         else [c])"

definition quote :: "string \<Rightarrow> string" where
  "quote s = CHR 0x22 # concat (map quoteChar s) @ [CHR 0x22]"

fun showNat :: "nat \<Rightarrow> string" where
  "showNat n =
     (if n < 10 then [char_of (48 + n)]
      else showNat (n div 10) @ [char_of (48 + n mod 10)])"

declare showNat.simps [simp del]

definition showInt :: "int \<Rightarrow> string" where
  "showInt i = (if i < 0 then CHR ''-'' # showNat (nat (- i)) else showNat (nat i))"

definition property :: "string \<Rightarrow> string \<Rightarrow> string" where
  "property key v = ''    '' @ quote key @ '': '' @ v"

definition stringifyUser :: "user \<Rightarrow> string" where
  "stringifyUser u =
     ''  {'' @ [CHR 0x0A]
     @ property ''id'' (quote (id' u)) @ '','' @ [CHR 0x0A]
     @ property ''name'' (quote (name u)) @ '','' @ [CHR 0x0A]
     @ property ''email'' (quote (email u))
     @ (case age u of
          None \<Rightarrow> []
        | Some a \<Rightarrow> '','' @ [CHR 0x0A] @ property ''age'' (showInt a))
     @ [CHR 0x0A] @ ''  }''"

fun joinLines :: "string list \<Rightarrow> string" where
  "joinLines [] = []"
| "joinLines [x] = x"
| "joinLines (x # y # ys) = x @ '','' @ [CHR 0x0A] @ joinLines (y # ys)"

definition JSON_stringify :: "user list \<Rightarrow> string" where
  "JSON_stringify users =
     (if users = [] then ''[]''
      else ''['' @ [CHR 0x0A] @ joinLines (map stringifyUser users) @ [CHR 0x0A] @ '']'')"

subsection \<open>The cast \<open>parsed as User[]\<close>\<close>

definition codes :: "string \<Rightarrow> nat list" where
  "codes s = map of_char s"

definition asString :: "json \<Rightarrow> string option" where
  "asString v =
     (case v of
        JString ns \<Rightarrow> if list_all (\<lambda>n. n < 256) ns then Some (map char_of ns) else None
      | _ \<Rightarrow> None)"

definition asInteger :: "json \<Rightarrow> int option" where
  "asInteger v =
     (case v of
        JNumber q \<Rightarrow> if of_int \<lfloor>q\<rfloor> = q then Some \<lfloor>q\<rfloor> else None
      | _ \<Rightarrow> None)"

text \<open>
  The cast is not checked by the program. Here a value is a record when it is an
  object with the string properties \<open>id\<close>, \<open>name\<close> and \<open>email\<close>, in any order, with or
  without an integer \<open>age\<close>, and with no other property.
\<close>

definition asUser :: "json \<Rightarrow> user option" where
  "asUser v =
     (case v of
        JObject ps \<Rightarrow>
          if list_all (\<lambda>(k, x). k \<in> set [codes ''id'', codes ''name'', codes ''email'', codes ''age'']) ps
          then
            (case (Option.bind (map_of ps (codes ''id'')) asString,
                   Option.bind (map_of ps (codes ''name'')) asString,
                   Option.bind (map_of ps (codes ''email'')) asString,
                   (case map_of ps (codes ''age'') of
                      None \<Rightarrow> Some None
                    | Some x \<Rightarrow> map_option Some (asInteger x))) of
               (Some i, Some n, Some e, Some a) \<Rightarrow>
                 Some \<lparr>id' = i, name = n, email = e, age = a\<rparr>
             | _ \<Rightarrow> None)
          else None
      | _ \<Rightarrow> None)"

fun asUsers :: "json list \<Rightarrow> user list option" where
  "asUsers [] = Some []"
| "asUsers (v # vs) =
     (case asUser v of
        None \<Rightarrow> None
      | Some u \<Rightarrow> map_option ((#) u) (asUsers vs))"

section \<open>I/O helpers\<close>

text \<open>\<open>saveUsers\<close> passes the rejection of the write on.\<close>

definition saveUsers :: "user list \<Rightarrow> disk \<Rightarrow> (error + unit) \<times> disk" where
  "saveUsers users f =
     (case writeFile (JSON_stringify users) f of
        (Fulfilled u, f1) \<Rightarrow> (Inr (), f1)
      | (ENOENT, f1) \<Rightarrow> (Inl WriteFailure, f1)
      | (Rejected, f1) \<Rightarrow> (Inl WriteFailure, f1))"

text \<open>\<open>await saveUsers(users); return x\<close>\<close>

definition thenReturn :: "(error + unit) \<times> disk \<Rightarrow> 'a \<Rightarrow> (error + 'a) \<times> disk" where
  "thenReturn saved x = (case saved of (Inl e, f) \<Rightarrow> (Inl e, f) | (Inr u, f) \<Rightarrow> (Inr x, f))"

text \<open>
  \<open>loadUsers\<close>: the \<open>catch\<close> block writes the empty list when the read was rejected
  with ENOENT, and rethrows every other error, those of \<open>JSON.parse\<close> included. A
  rejection of that write leaves the \<open>catch\<close> block as the error of \<open>loadUsers\<close>.
\<close>

definition loadUsers :: "disk \<Rightarrow> (error + user list) \<times> disk" where
  "loadUsers f =
     (case readFile f of
        Fulfilled raw \<Rightarrow>
          (case JSON_parse raw of
             None \<Rightarrow> (Inl SyntaxError, f)
           | Some parsed \<Rightarrow>
               if isArray parsed then
                 (case asUsers (elements parsed) of
                    None \<Rightarrow> (Inl IllTyped, f)
                  | Some users \<Rightarrow> (Inr users, f))
               else (Inr [], f))
      | ENOENT \<Rightarrow> thenReturn (saveUsers [] f) []
      | Rejected \<Rightarrow> (Inl ReadFailure, f))"

text \<open>The file that holds the text of a list of records.\<close>

abbreviation Stored :: "user list \<Rightarrow> disk" where
  "Stored users \<equiv> Text (JSON_stringify users)"

section \<open>Validation\<close>

text \<open>\<open>/^[^\s@]+@[^\s@]+\.[^\s@]+$/\<close>\<close>

definition notSpaceAt :: "char \<Rightarrow> bool" where
  "notSpaceAt c = (\<not> isWhiteSpace c \<and> c \<noteq> CHR ''@'')"

definition emailPattern :: rexp where
  "emailPattern =
     RSeq (RPlus (RClass notSpaceAt))
       (RSeq (RClass (\<lambda>c. c = CHR ''@''))
         (RSeq (RPlus (RClass notSpaceAt))
           (RSeq (RClass (\<lambda>c. c = CHR ''.''))
             (RPlus (RClass notSpaceAt)))))"

definition isValidEmail :: "string \<Rightarrow> bool" where
  "isValidEmail e = test emailPattern e"


subsection \<open>\<open>Number(string)\<close>\<close>














section \<open>CRUD\<close>

text \<open>
  \<open>randomUUID()\<close> is the first argument \<open>newId\<close> of \<open>addUser\<close>.
\<close>

definition addUser ::
  "string \<Rightarrow> string \<Rightarrow> string \<Rightarrow> int option \<Rightarrow> disk \<Rightarrow> (error + user) \<times> disk" where
  "addUser newId nm em ag f =
     (case loadUsers f of
        (Inl e, f1) \<Rightarrow> (Inl e, f1)
      | (Inr users, f1) \<Rightarrow>
          if \<not> isValidEmail em then (Inl EmailInvalid, f1)
          else if list_ex (\<lambda>u. toLowerCase (email u) = toLowerCase em) users
          then (Inl EmailExists, f1)
          else
            let u = \<lparr>id' = newId, name = nm, email = em, age = ag\<rparr>
            in thenReturn (saveUsers (users @ [u]) f1) u)"

text \<open>\<open>users.findIndex(p)\<close>: the first index whose element satisfies \<open>p\<close>.\<close>

fun findIndex :: "('a \<Rightarrow> bool) \<Rightarrow> 'a list \<Rightarrow> nat option" where
  "findIndex p [] = None"
| "findIndex p (x # xs) =
     (if p x then Some 0 else map_option Suc (findIndex p xs))"

text \<open>\<open>{ ...u, ...updates }\<close>\<close>

definition spread :: "user \<Rightarrow> updates \<Rightarrow> user" where
  "spread u upd =
     \<lparr>id' = id' u,
      name = (case upd_name upd of None \<Rightarrow> name u | Some n \<Rightarrow> n),
      email = (case upd_email upd of None \<Rightarrow> email u | Some e \<Rightarrow> e),
      age = (case upd_age upd of None \<Rightarrow> age u | Some a \<Rightarrow> Some a)\<rparr>"

text \<open>
  \<open>if (updates.email)\<close> is a truthiness test: it holds for an email that is given and
  is not the empty string.
\<close>

definition truthy :: "string option \<Rightarrow> bool" where
  "truthy v = (case v of None \<Rightarrow> False | Some s \<Rightarrow> s \<noteq> [])"

definition updateUser :: "string \<Rightarrow> updates \<Rightarrow> disk \<Rightarrow> (error + user) \<times> disk" where
  "updateUser i upd f =
     (case loadUsers f of
        (Inl e, f1) \<Rightarrow> (Inl e, f1)
      | (Inr users, f1) \<Rightarrow>
          (case findIndex (\<lambda>u. id' u = i) users of
             None \<Rightarrow> (Inl UpdateNotFound, f1)
           | Some idx \<Rightarrow>
               if truthy (upd_email upd) \<and> \<not> isValidEmail (the (upd_email upd))
               then (Inl EmailInvalid, f1)
               else if truthy (upd_email upd) \<and>
                 list_ex (\<lambda>u. toLowerCase (email u) = toLowerCase (the (upd_email upd))
                               \<and> id' u \<noteq> i) users
               then (Inl EmailExistsOther, f1)
               else
                 let updated = spread (users ! idx) upd
                 in thenReturn (saveUsers (users[idx := updated]) f1) updated))"

definition deleteUser :: "string \<Rightarrow> disk \<Rightarrow> (error + bool) \<times> disk" where
  "deleteUser i f =
     (case loadUsers f of
        (Inl e, f1) \<Rightarrow> (Inl e, f1)
      | (Inr users, f1) \<Rightarrow>
          let before = length users;
              filtered = filter (\<lambda>u. id' u \<noteq> i) users
          in if length filtered = before then (Inl DeleteNotFound, f1)
             else thenReturn (saveUsers filtered f1) True)"

definition searchUsers :: "string \<Rightarrow> disk \<Rightarrow> (error + user list) \<times> disk" where
  "searchUsers keyword f =
     (case loadUsers f of
        (Inl e, f1) \<Rightarrow> (Inl e, f1)
      | (Inr users, f1) \<Rightarrow>
          let k = toLowerCase (trim keyword)
          in if k = [] then (Inr users, f1)
             else (Inr (filter (\<lambda>u. includes_str (toLowerCase (id' u)) k
                                   \<or> includes_str (toLowerCase (name u)) k
                                   \<or> includes_str (toLowerCase (email u)) k) users), f1))"

definition listUsers :: "disk \<Rightarrow> (error + user list) \<times> disk" where
  "listUsers f = loadUsers f"

section \<open>The handlers of the console\<close>




section \<open>The earlier versions of the program\<close>

text \<open>
  The repository holds two earlier versions of the same program beside the complete
  one modelled above. Their functions carry the suffix \<open>_draft\<close>.
  \<open>loadUsers\<close> of both earlier versions returns the empty list when the read is
  rejected with ENOENT, and writes nothing. The second version has \<open>saveUsers\<close>, which
  catches the rejection of the write and logs it, and the CRUD functions: \<open>addUser\<close>
  and \<open>updateUser\<close> without any check of the email, \<open>deleteUser\<close> as above,
  \<open>searchUsers\<close> on the name and the email only.
\<close>

definition loadUsers_draft :: "disk \<Rightarrow> (error + user list) \<times> disk" where
  "loadUsers_draft f =
     (case readFile f of
        Fulfilled raw \<Rightarrow>
          (case JSON_parse raw of
             None \<Rightarrow> (Inl SyntaxError, f)
           | Some parsed \<Rightarrow>
               if isArray parsed then
                 (case asUsers (elements parsed) of
                    None \<Rightarrow> (Inl IllTyped, f)
                  | Some users \<Rightarrow> (Inr users, f))
               else (Inr [], f))
      | ENOENT \<Rightarrow> (Inr [], f)
      | Rejected \<Rightarrow> (Inl ReadFailure, f))"

definition saveUsers_draft :: "user list \<Rightarrow> disk \<Rightarrow> disk" where
  "saveUsers_draft users f = snd (writeFile (JSON_stringify users) f)"

definition addUser_draft ::
  "string \<Rightarrow> string \<Rightarrow> string \<Rightarrow> int option \<Rightarrow> disk \<Rightarrow> (error + user) \<times> disk" where
  "addUser_draft newId nm em ag f =
     (case loadUsers_draft f of
        (Inl e, f1) \<Rightarrow> (Inl e, f1)
      | (Inr users, f1) \<Rightarrow>
          let u = \<lparr>id' = newId, name = nm, email = em, age = ag\<rparr>
          in (Inr u, saveUsers_draft (users @ [u]) f1))"

definition updateUser_draft :: "string \<Rightarrow> updates \<Rightarrow> disk \<Rightarrow> (error + user) \<times> disk" where
  "updateUser_draft i upd f =
     (case loadUsers_draft f of
        (Inl e, f1) \<Rightarrow> (Inl e, f1)
      | (Inr users, f1) \<Rightarrow>
          (case findIndex (\<lambda>u. id' u = i) users of
             None \<Rightarrow> (Inl UpdateNotFound, f1)
           | Some idx \<Rightarrow>
               let updated = spread (users ! idx) upd
               in (Inr updated, saveUsers_draft (users[idx := updated]) f1)))"

definition deleteUser_draft :: "string \<Rightarrow> disk \<Rightarrow> (error + bool) \<times> disk" where
  "deleteUser_draft i f =
     (case loadUsers_draft f of
        (Inl e, f1) \<Rightarrow> (Inl e, f1)
      | (Inr users, f1) \<Rightarrow>
          let before = length users;
              filtered = filter (\<lambda>u. id' u \<noteq> i) users
          in if length filtered = before then (Inl DeleteNotFound, f1)
             else (Inr True, saveUsers_draft filtered f1))"

definition searchUsers_draft :: "string \<Rightarrow> disk \<Rightarrow> (error + user list) \<times> disk" where
  "searchUsers_draft keyword f =
     (case loadUsers_draft f of
        (Inl e, f1) \<Rightarrow> (Inl e, f1)
      | (Inr users, f1) \<Rightarrow>
          let k = toLowerCase (trim keyword)
          in if k = [] then (Inr users, f1)
             else (Inr (filter (\<lambda>u. includes_str (toLowerCase (name u)) k
                                   \<or> includes_str (toLowerCase (email u)) k) users), f1))"

section \<open>Notions of the statements\<close>




text \<open>
  The tokens of the text of a record and of a list of records, and the JSON value of a
  record: what the lexer and the parser are to find in the text that \<open>JSON_stringify\<close>
  writes.
\<close>

definition userTokens :: "user \<Rightarrow> token list" where
  "userTokens u =
     [TLBrace, TString (codes ''id''), TColon, TString (codes (id' u)), TComma,
      TString (codes ''name''), TColon, TString (codes (name u)), TComma,
      TString (codes ''email''), TColon, TString (codes (email u))]
     @ (case age u of
          None \<Rightarrow> []
        | Some a \<Rightarrow> [TComma, TString (codes ''age''), TColon, TNumber (of_int a)])
     @ [TRBrace]"

fun joinTokens :: "user list \<Rightarrow> token list" where
  "joinTokens [] = []"
| "joinTokens [u] = userTokens u"
| "joinTokens (u # v # vs) = userTokens u @ TComma # joinTokens (v # vs)"

definition userJSON :: "user \<Rightarrow> json" where
  "userJSON u =
     JObject ([(codes ''id'', JString (codes (id' u))),
               (codes ''name'', JString (codes (name u))),
               (codes ''email'', JString (codes (email u)))]
              @ (case age u of None \<Rightarrow> [] | Some a \<Rightarrow> [(codes ''age'', JNumber (of_int a))]))"

section \<open>Properties\<close>

subsection \<open>The text that is written is read back\<close>

lemma of_char_hexDigit: "d < 16 \<Longrightarrow> (of_char (hexDigit d) :: nat) = (if d < 10 then 48 + d else 87 + d)"
  by (simp add: hexDigit_def)

lemma digitValue_hexDigit: "d < 16 \<Longrightarrow> digitValue (hexDigit d) = Some d"
  unfolding digitValue_def Let_def by (simp add: of_char_hexDigit)

lemma hex4_control:
  assumes "n < 32"
  shows "hex4 (CHR ''0'') (CHR ''0'') (hexDigit (n div 16)) (hexDigit (n mod 16)) = Some n"
proof -
  have z: "digitValue (CHR ''0'') = Some 0" by (simp add: digitValue_def)
  from assms have "n div 16 < 16" by simp
  then have a: "digitValue (hexDigit (n div 16)) = Some (n div 16)" by (rule digitValue_hexDigit)
  have b: "digitValue (hexDigit (n mod 16)) = Some (n mod 16)" by (rule digitValue_hexDigit) simp
  show ?thesis by (simp add: hex4_def z a b)
qed

lemma char_quote_iff: "(c = CHR 0x22) = (of_char c = (34::nat))"
  using of_char_eq_iff [of c "CHR 0x22", where ?'a = nat] by simp

lemma char_backslash_iff: "(c = CHR 0x5C) = (of_char c = (92::nat))"
  using of_char_eq_iff [of c "CHR 0x5C", where ?'a = nat] by simp

lemma lexString_escape2:
  assumes "(e, n) \<in> {(CHR ''b'', 8), (CHR ''t'', 9), (CHR ''n'', 10), (CHR ''f'', 12), (CHR ''r'', 13),
                     (CHR 0x22, 34), (CHR 0x5C, 92)}"
  shows "lexString (CHR 0x5C # e # rest) = map_option (\<lambda>(s, t). (n # s, t)) (lexString rest)"
  using assms by auto

lemma lexString_escape6:
  assumes "n < 32"
  shows "lexString (CHR 0x5C # CHR ''u'' # CHR ''0'' # CHR ''0'' # hexDigit (n div 16)
                    # hexDigit (n mod 16) # rest)
         = map_option (\<lambda>(s, t). (n # s, t)) (lexString rest)"
  by (simp add: hex4_control [OF assms])

lemma lexString_raw:
  assumes "of_char c \<noteq> (34::nat)" and "of_char c \<noteq> (92::nat)" and "\<not> of_char c < (32::nat)"
  shows "lexString (c # rest) = map_option (\<lambda>(s, t). (of_char c # s, t)) (lexString rest)"
  using assms by (simp add: char_quote_iff char_backslash_iff)

lemma lexString_quoteChar:
  "lexString (quoteChar c @ rest) = map_option (\<lambda>(s, t). (of_char c # s, t)) (lexString rest)"
proof -
  define n where "n = (of_char c :: nat)"
  consider "n = 8" | "n = 9" | "n = 10" | "n = 12" | "n = 13" | "n = 34" | "n = 92"
    | "n < 32" "n \<notin> {8, 9, 10, 12, 13}" | "\<not> n < 32" "n \<noteq> 34" "n \<noteq> 92"
    by fastforce
  then show ?thesis
  proof cases
    case 1
    then have "quoteChar c = [CHR 0x5C, CHR ''b'']" by (simp add: quoteChar_def n_def)
    with 1 show ?thesis using lexString_escape2 [of "CHR ''b''" 8 rest] by (simp add: n_def)
  next
    case 2
    then have "quoteChar c = [CHR 0x5C, CHR ''t'']" by (simp add: quoteChar_def n_def)
    with 2 show ?thesis using lexString_escape2 [of "CHR ''t''" 9 rest] by (simp add: n_def)
  next
    case 3
    then have "quoteChar c = [CHR 0x5C, CHR ''n'']" by (simp add: quoteChar_def n_def)
    with 3 show ?thesis using lexString_escape2 [of "CHR ''n''" 10 rest] by (simp add: n_def)
  next
    case 4
    then have "quoteChar c = [CHR 0x5C, CHR ''f'']" by (simp add: quoteChar_def n_def)
    with 4 show ?thesis using lexString_escape2 [of "CHR ''f''" 12 rest] by (simp add: n_def)
  next
    case 5
    then have "quoteChar c = [CHR 0x5C, CHR ''r'']" by (simp add: quoteChar_def n_def)
    with 5 show ?thesis using lexString_escape2 [of "CHR ''r''" 13 rest] by (simp add: n_def)
  next
    case 6
    then have "quoteChar c = [CHR 0x5C, CHR 0x22]" by (simp add: quoteChar_def n_def)
    with 6 show ?thesis using lexString_escape2 [of "CHR 0x22" 34 rest] by (simp add: n_def)
  next
    case 7
    then have "quoteChar c = [CHR 0x5C, CHR 0x5C]" by (simp add: quoteChar_def n_def)
    with 7 show ?thesis using lexString_escape2 [of "CHR 0x5C" 92 rest] by (simp add: n_def)
  next
    case 8
    then have "quoteChar c = [CHR 0x5C, CHR ''u'', CHR ''0'', CHR ''0'',
                              hexDigit (n div 16), hexDigit (n mod 16)]"
      by (simp add: quoteChar_def n_def Let_def)
    with 8(1) show ?thesis using lexString_escape6 [of n rest] by (simp add: n_def)
  next
    case 9
    then have "quoteChar c = [c]" by (simp add: quoteChar_def n_def Let_def)
    with 9 show ?thesis using lexString_raw [of c rest] by (simp add: n_def)
  qed
qed

lemma lexString_quoted:
  "lexString (concat (map quoteChar s) @ CHR 0x22 # rest) = Some (codes s, rest)"
  by (induction s) (simp_all add: codes_def lexString_quoteChar del: lexString.simps, simp)

lemma isDecimalDigit_digit: "d < 10 \<Longrightarrow> isDecimalDigit (char_of (48 + d :: nat))"
  by (simp add: isDecimalDigit_def)

lemma char_of_48: "char_of (48::nat) = CHR ''0''"
  using of_char_eq_iff [of "char_of (48::nat)" "CHR ''0''", where ?'a = nat] by simp

lemma showNat_small: "n < 10 \<Longrightarrow> showNat n = [char_of (48 + n)]"
  by (subst showNat.simps) simp

lemma showNat_large: "\<not> n < 10 \<Longrightarrow> showNat n = showNat (n div 10) @ [char_of (48 + n mod 10)]"
  by (subst showNat.simps) simp

lemma showNat_digits: "\<forall>c\<in>set (showNat n). isDecimalDigit c"
proof (induction n rule: showNat.induct)
  case (1 n)
  show ?case
  proof (cases "n < 10")
    case True
    then show ?thesis by (simp add: showNat_small isDecimalDigit_digit)
  next
    case False
    with 1 show ?thesis by (simp add: showNat_large isDecimalDigit_digit)
  qed
qed

lemma showNat_not_Nil: "showNat n \<noteq> []"
  by (cases "n < 10") (simp_all add: showNat_small showNat_large)

lemma decimalValue_snoc: "decimalValue (ds @ [c]) = decimalValue ds * 10 + (of_char c - 48)"
  by (simp add: decimalValue_def)

lemma decimalValue_showNat: "decimalValue (showNat n) = n"
proof (induction n rule: showNat.induct)
  case (1 n)
  show ?case
  proof (cases "n < 10")
    case True
    then show ?thesis by (simp add: showNat_small decimalValue_def)
  next
    case False
    with 1 have "decimalValue (showNat (n div 10)) = n div 10" by simp
    with False show ?thesis
      by (simp add: showNat_large decimalValue_snoc)
  qed
qed

lemma hd_showNat: "hd (showNat n) = CHR ''0'' \<longleftrightarrow> n = 0"
proof (induction n rule: showNat.induct)
  case (1 n)
  show ?case
  proof (cases "n < 10")
    case True
    have "(char_of (48 + n) = CHR ''0'') = (of_char (char_of (48 + n) :: char) = (48::nat))"
      using of_char_eq_iff [of "char_of (48 + n)" "CHR ''0''", where ?'a = nat] by simp
    with True show ?thesis by (simp add: showNat_small)
  next
    case False
    with 1 have "hd (showNat (n div 10)) = CHR ''0'' \<longleftrightarrow> n div 10 = 0" by simp
    with False show ?thesis
      by (simp add: showNat_large hd_append showNat_not_Nil)
  qed
qed

lemma takeWhile_digits:
  assumes "\<forall>c\<in>set ds. isDecimalDigit c" and "rest = [] \<or> \<not> isDecimalDigit (hd rest)"
  shows "takeWhile isDecimalDigit (ds @ rest) = ds" and "dropWhile isDecimalDigit (ds @ rest) = rest"
  using assms by (cases rest; simp add: takeWhile_append dropWhile_append)+

lemma intPart_showNat:
  assumes "rest = [] \<or> \<not> isDecimalDigit (hd rest)"
  shows "intPart (showNat n @ rest) = Some (showNat n, rest)"
proof (cases "n = 0")
  case True
  then show ?thesis by (simp add: showNat_small intPart_def char_of_48)
next
  case False
  then have h: "hd (showNat n @ rest) \<noteq> CHR ''0''"
    by (simp add: hd_append showNat_not_Nil hd_showNat)
  from takeWhile_digits [OF showNat_digits assms, of n] h show ?thesis
    by (simp add: intPart_def showNat_not_Nil)
qed

lemma lexNumber_showInt:
  assumes "rest = [] \<or> (\<not> isDecimalDigit (hd rest) \<and> hd rest \<notin> {CHR ''.'', CHR ''e'', CHR ''E''})"
  shows "lexNumber (showInt i @ rest) = Some (of_int i, rest)"
proof -
  from assms have r: "rest = [] \<or> \<not> isDecimalDigit (hd rest)" by blast
  from assms have f: "fracPart rest = Some ([], rest)" by (auto simp: fracPart_def)
  from assms have e: "expPart rest = Some (0, rest)" by (auto simp: expPart_def)
  have d: "hd (showNat n) \<noteq> CHR ''-''" for n
  proof -
    from showNat_digits [of n] showNat_not_Nil [of n] have "isDecimalDigit (hd (showNat n))" by simp
    then show ?thesis by (auto simp: isDecimalDigit_def)
  qed
  show ?thesis
  proof (cases "i < 0")
    case True
    then have s: "showInt i = CHR ''-'' # showNat (nat (- i))" by (simp add: showInt_def)
    from True have v: "- rat_of_nat (nat (- i)) = rat_of_int i" by simp
    show ?thesis
      unfolding s lexNumber_def Let_def
      by (simp add: intPart_showNat [OF r] f e decimalValue_showNat scale10_def v)
  next
    case False
    then have s: "showInt i = showNat (nat i)" by (simp add: showInt_def)
    from False have v: "rat_of_nat (nat i) = rat_of_int i" by simp
    have n: "\<not> (showNat (nat i) @ rest \<noteq> [] \<and> hd (showNat (nat i) @ rest) = CHR ''-'')"
      using d [of "nat i"] by (simp add: hd_append showNat_not_Nil)
    show ?thesis
      unfolding s lexNumber_def Let_def
      by (simp only: n if_False intPart_showNat [OF r] f e option.case prod.case
           append_Nil2 decimalValue_showNat list.size diff_0_right of_nat_0 scale10_def
           order_refl if_True nat_0 power_0 mult_1_right v)
  qed
qed

declare lex.simps [simp del]

lemma lex_punct:
  "lex (CHR ''{'' # rest) = map_option ((#) TLBrace) (lex rest)"
  "lex (CHR ''}'' # rest) = map_option ((#) TRBrace) (lex rest)"
  "lex (CHR ''['' # rest) = map_option ((#) TLBracket) (lex rest)"
  "lex (CHR '']'' # rest) = map_option ((#) TRBracket) (lex rest)"
  "lex (CHR '':'' # rest) = map_option ((#) TColon) (lex rest)"
  "lex (CHR '','' # rest) = map_option ((#) TComma) (lex rest)"
  "lex (CHR '' '' # rest) = lex rest"
  "lex (CHR 0x0A # rest) = lex rest"
  by (simp_all add: lex.simps isSpace_def)

lemma lex_quote: "lex (quote s @ rest) = map_option ((#) (TString (codes s))) (lex rest)"
proof -
  have "\<not> isSpace (CHR 0x22)" by (simp add: isSpace_def)
  then show ?thesis
    by (simp add: quote_def lexString_quoted lex.simps)
qed

lemma isDecimalDigit_cases:
  assumes "isDecimalDigit c"
  shows "\<not> isSpace c" "c \<noteq> CHR ''{''" "c \<noteq> CHR ''}''" "c \<noteq> CHR ''[''" "c \<noteq> CHR '']''"
    "c \<noteq> CHR '':''" "c \<noteq> CHR '',''" "c \<noteq> CHR 0x22"
  using assms by (auto simp: isDecimalDigit_def isSpace_def Let_def)

lemma lex_number_start:
  assumes "c = CHR ''-'' \<or> isDecimalDigit c"
  shows "lex (c # cs) = (case lexNumber (c # cs) of
           None \<Rightarrow> None
         | Some (q, r) \<Rightarrow> map_option ((#) (TNumber q)) (lex r))"
proof (cases "c = CHR ''-''")
  case True
  then show ?thesis by (simp add: lex.simps isSpace_def)
next
  case False
  with assms have d: "isDecimalDigit c" by blast
  from isDecimalDigit_cases [OF d] d show ?thesis by (simp add: lex.simps)
qed

lemma lex_showInt:
  "lex (showInt i @ CHR 0x0A # rest) = map_option ((#) (TNumber (of_int i))) (lex rest)"
proof -
  have n: "lexNumber (showInt i @ CHR 0x0A # rest) = Some (of_int i, CHR 0x0A # rest)"
    by (rule lexNumber_showInt) (simp add: isDecimalDigit_def)
  obtain c cs where s: "showInt i = c # cs" and c: "c = CHR ''-'' \<or> isDecimalDigit c"
  proof (cases "i < 0")
    case True
    then have "showInt i = CHR ''-'' # showNat (nat (- i))" by (simp add: showInt_def)
    then show ?thesis using that by blast
  next
    case False
    then have e: "showInt i = showNat (nat i)" by (simp add: showInt_def)
    obtain c cs where cs: "showNat (nat i) = c # cs"
      using showNat_not_Nil [of "nat i"] by (cases "showNat (nat i)") auto
    with showNat_digits [of "nat i"] have "isDecimalDigit c" by simp
    with e cs show ?thesis using that by simp
  qed
  from n have "lexNumber (c # cs @ CHR 0x0A # rest) = Some (of_int i, CHR 0x0A # rest)"
    by (simp add: s)
  with lex_number_start [OF c, of "cs @ CHR 0x0A # rest"]
  show ?thesis by (simp add: s lex_punct)
qed

lemma lex_property:
  "lex (property key v @ rest) = map_option ((#) (TString (codes key)))
     (map_option ((#) TColon) (lex (v @ rest)))"
  by (simp add: property_def lex_punct lex_quote)

lemma map_option_append_append:
  "map_option ((@) ts) (map_option ((@) ts') x) = map_option ((@) (ts @ ts')) x"
  by (cases x) simp_all

lemma map_option_Cons_as_append: "map_option ((#) t) x = map_option ((@) [t]) x"
  by (cases x) simp_all

lemma lex_user:
  "lex (stringifyUser u @ rest) = map_option ((@) (userTokens u)) (lex rest)"
proof (cases "age u")
  case None
  then show ?thesis
    by (simp add: stringifyUser_def userTokens_def lex_punct lex_property lex_quote
        map_option_Cons_as_append map_option_append_append)
next
  case (Some a)
  then show ?thesis
    by (simp add: stringifyUser_def userTokens_def lex_punct lex_property lex_quote
        lex_showInt map_option_Cons_as_append map_option_append_append)
qed

lemma lex_joinLines:
  "lex (joinLines (map stringifyUser us) @ rest) = map_option ((@) (joinTokens us)) (lex rest)"
proof (induction us rule: joinTokens.induct)
  case 1
  show ?case by (simp add: option.map_ident)
next
  case (2 u)
  show ?case by (simp add: lex_user)
next
  case (3 u v vs)
  then show ?case
    by (cases "lex rest") (simp_all add: lex_user lex_punct)
qed

lemma lex_stringify:
  "lex (JSON_stringify us) = Some (TLBracket # joinTokens us @ [TRBracket])"
proof (cases "us = []")
  case True
  then show ?thesis
    by (simp add: JSON_stringify_def lex_punct lex.simps(1))
next
  case False
  then show ?thesis
    by (simp add: JSON_stringify_def lex_punct lex_joinLines lex.simps(1))
qed

lemma run_append: "run s (ts @ ts') = (case run s ts of None \<Rightarrow> None | Some s' \<Rightarrow> run s' ts')"
  by (induction ts arbitrary: s) (simp_all split: option.splits)

lemma run_user:
  assumes "e = Value \<or> e = ValueOrClose"
  shows "run (InArray es # st, e) (userTokens u)
         = Some (InArray (es @ [userJSON u]) # st, CommaOrClose)"
proof (cases "age u")
  case None
  with assms show ?thesis
    by (auto simp: userTokens_def userJSON_def isValueStart_def codes_def)
next
  case (Some a)
  with assms show ?thesis
    by (auto simp: userTokens_def userJSON_def isValueStart_def codes_def)
qed

lemma run_joinTokens:
  assumes "us \<noteq> []" and "e = Value \<or> e = ValueOrClose"
  shows "run (InArray es # st, e) (joinTokens us)
         = Some (InArray (es @ map userJSON us) # st, CommaOrClose)"
  using assms
proof (induction us arbitrary: es e rule: joinTokens.induct)
  case 1
  then show ?case by simp
next
  case (2 u)
  then show ?case by (simp add: run_user)
next
  case (3 u v vs)
  from "3.IH" [of Value "es @ [userJSON u]"]
  have "run (InArray (es @ [userJSON u]) # st, Value) (joinTokens (v # vs))
        = Some (InArray (es @ userJSON u # map userJSON (v # vs)) # st, CommaOrClose)"
    by simp
  with "3.prems"(2) show ?case
    by (simp add: run_append run_user)
qed

lemma JSON_parse_stringify:
  "JSON_parse (JSON_stringify us) = Some (JArray (map userJSON us))"
proof (cases "us = []")
  case True
  then show ?thesis
    by (simp add: JSON_parse_def lex_stringify isValueStart_def)
next
  case False
  have "run ([], Value) (TLBracket # joinTokens us @ [TRBracket])
        = Some ([], Finished (JArray (map userJSON us)))"
    using False
    by (simp add: isValueStart_def run_append run_joinTokens [OF False])
  then show ?thesis
    by (simp add: JSON_parse_def lex_stringify)
qed

lemma asString_codes: "asString (JString (codes s)) = Some s"
proof -
  have "list_all (\<lambda>n. n < 256) (codes s)"
    by (simp add: codes_def list_all_iff)
  moreover have "map char_of (codes s) = s"
    by (simp add: codes_def map_idI)
  ultimately show ?thesis by (simp add: asString_def)
qed

lemma asInteger_of_int: "asInteger (JNumber (of_int a)) = Some a"
  by (simp add: asInteger_def)

lemma asUser_userJSON: "asUser (userJSON u) = Some u"
proof (cases "age u")
  case None
  have "u = \<lparr>id' = id' u, name = name u, email = email u, age = None\<rparr>"
    using None by simp
  then show ?thesis
    using None
    by (simp add: asUser_def userJSON_def asString_codes) (simp add: codes_def)
next
  case (Some a)
  have "u = \<lparr>id' = id' u, name = name u, email = email u, age = Some a\<rparr>"
    using Some by simp
  then show ?thesis
    using Some
    by (simp add: asUser_def userJSON_def asString_codes asInteger_of_int) (simp add: codes_def)
qed

lemma asUsers_userJSON: "asUsers (map userJSON us) = Some us"
  by (induction us) (simp_all add: asUser_userJSON)

lemma loadUsers_Stored: "loadUsers (Stored us) = (Inr us, Stored us)"
  by (simp add: loadUsers_def readFile_def JSON_parse_stringify asUsers_userJSON)

lemma loadUsers_draft_Stored: "loadUsers_draft (Stored us) = (Inr us, Stored us)"
  by (simp add: loadUsers_draft_def readFile_def JSON_parse_stringify asUsers_userJSON)

lemma saveUsers_cases:
  "saveUsers us f =
     (if f = NoDirectory then (Inl WriteFailure, NoDirectory) else (Inr (), Stored us))"
  by (cases f) (simp_all add: saveUsers_def writeFile_def)

lemma saveUsers_draft_cases:
  "saveUsers_draft us f = (if f = NoDirectory then NoDirectory else Stored us)"
  by (cases f) (simp_all add: saveUsers_draft_def writeFile_def)



text \<open>The same round trip, computed on the text.\<close>

lemma saveUsers_loadUsers_computed:
  "snd (saveUsers [\<lparr>id' = ''u1'', name = ''Ann'', email = ''ann@x.com'', age = Some 30\<rparr>] Missing)
   = Text (''['' @ [CHR 0x0A] @ ''  {'' @ [CHR 0x0A]
           @ ''    '' @ [CHR 0x22] @ ''id'' @ [CHR 0x22] @ '': '' @ [CHR 0x22] @ ''u1'' @ [CHR 0x22]
           @ '','' @ [CHR 0x0A]
           @ ''    '' @ [CHR 0x22] @ ''name'' @ [CHR 0x22] @ '': '' @ [CHR 0x22] @ ''Ann'' @ [CHR 0x22]
           @ '','' @ [CHR 0x0A]
           @ ''    '' @ [CHR 0x22] @ ''email'' @ [CHR 0x22] @ '': '' @ [CHR 0x22] @ ''ann@x.com''
           @ [CHR 0x22] @ '','' @ [CHR 0x0A]
           @ ''    '' @ [CHR 0x22] @ ''age'' @ [CHR 0x22] @ '': 30'' @ [CHR 0x0A]
           @ ''  }'' @ [CHR 0x0A] @ '']'')
   \<and> fst (loadUsers (snd (saveUsers
        [\<lparr>id' = ''u1'', name = ''Ann'', email = ''ann@x.com'', age = Some 30\<rparr>] Missing)))
     = Inr [\<lparr>id' = ''u1'', name = ''Ann'', email = ''ann@x.com'', age = Some 30\<rparr>]"
  by code_simp

subsection \<open>Loading the file\<close>

lemma loadUsers_Inr_cases:
  assumes "loadUsers f = (Inr us, f1)"
  shows "f1 = f \<or> (us = [] \<and> f = Missing \<and> f1 = Stored [])"
  using assms
  by (cases f)
     (auto simp: loadUsers_def readFile_def saveUsers_cases thenReturn_def
           split: option.splits if_splits)

text \<open>After a load that succeeded the directory exists, and a write succeeds.\<close>

lemma loadUsers_Inr_Text:
  assumes "loadUsers f = (Inr us, f1)"
  shows "f1 \<noteq> NoDirectory"
  using assms
  by (cases f)
     (auto simp: loadUsers_def readFile_def saveUsers_cases thenReturn_def
           split: option.splits if_splits)

lemma saved_after_load:
  assumes "loadUsers f = (Inr us, f1)"
  shows "thenReturn (saveUsers us' f1) x = (Inr x, Stored us')"
  using loadUsers_Inr_Text [OF assms] by (simp add: saveUsers_cases thenReturn_def)

lemma loadUsers_draft_Inr:
  assumes "loadUsers_draft f = (Inr us, f1)"
  shows "f1 = f" and "us \<noteq> [] \<Longrightarrow> saveUsers_draft us' f1 = Stored us'"
  using assms
  by (cases f;
      auto simp: loadUsers_draft_def readFile_def saveUsers_draft_cases
           split: option.splits if_splits)+

lemma loadUsers_idem:
  assumes "loadUsers f = (Inr users, f1)"
  shows "loadUsers f1 = (Inr users, f1)"
  using loadUsers_Inr_cases [OF assms] assms
  by (auto simp: loadUsers_Stored)



text \<open>
  C7, as amended. When the file does not exist, the complete program writes an empty
  array and returns the empty list, provided the directory of the file exists; when
  the directory does not exist either, that write is rejected, \<open>loadUsers\<close> fails with
  the error of the write and nothing is created. The two earlier versions return the
  empty list and write nothing in both cases. In every version, JSON that is not an
  array gives the empty list and leaves the file alone, an array of records is
  returned, and a failure of the read or of the parse is passed on.
\<close>

theorem loadUsers_cases:
  "loadUsers Missing = (Inr [], Text ''[]'')
   \<and> loadUsers NoDirectory = (Inl WriteFailure, NoDirectory)
   \<and> loadUsers_draft Missing = (Inr [], Missing)
   \<and> loadUsers_draft NoDirectory = (Inr [], NoDirectory)
   \<and> loadUsers Unreadable = (Inl ReadFailure, Unreadable)
   \<and> loadUsers_draft Unreadable = (Inl ReadFailure, Unreadable)
   \<and> (JSON_parse raw = None \<longrightarrow>
         loadUsers (Text raw) = (Inl SyntaxError, Text raw)
         \<and> loadUsers_draft (Text raw) = (Inl SyntaxError, Text raw))
   \<and> (\<forall>v. JSON_parse raw = Some v \<and> \<not> isArray v \<longrightarrow>
         loadUsers (Text raw) = (Inr [], Text raw)
         \<and> loadUsers_draft (Text raw) = (Inr [], Text raw))
   \<and> (\<forall>vs users. JSON_parse raw = Some (JArray vs) \<and> asUsers vs = Some users \<longrightarrow>
         loadUsers (Text raw) = (Inr users, Text raw)
         \<and> loadUsers_draft (Text raw) = (Inr users, Text raw))"
  by (simp add: loadUsers_def loadUsers_draft_def readFile_def saveUsers_cases thenReturn_def
      JSON_stringify_def)

text \<open>
  Witness of C7: the text \<open>{}\<close> is JSON and no array; the text \<open>[1,\<close> is not JSON; the
  text \<open>[]\<close> is the empty array.
\<close>

theorem loadUsers_cases_witness:
  "loadUsers (Text ''{}'') = (Inr [], Text ''{}'')
   \<and> loadUsers_draft (Text ''{}'') = (Inr [], Text ''{}'')
   \<and> loadUsers (Text ''[1,'') = (Inl SyntaxError, Text ''[1,'')
   \<and> loadUsers_draft (Text ''[1,'') = (Inl SyntaxError, Text ''[1,'')
   \<and> loadUsers (Text ''[]'') = (Inr [], Text ''[]'')
   \<and> loadUsers_draft (Text ''[]'') = (Inr [], Text ''[]'')"
proof -
  have a: "JSON_parse ''{}'' = Some (JObject [])"
    by code_simp
  have b: "JSON_parse ''[1,'' = None"
    by code_simp
  have c: "JSON_parse ''[]'' = Some (JArray [])" "asUsers [] = Some []"
    by code_simp+
  from loadUsers_cases [of "''{}''"] loadUsers_cases [of "''[1,''"] loadUsers_cases [of "''[]''"]
    a b c
  show ?thesis by simp
qed

text \<open>
  Counterexample to C7 as stated: the file does not exist, and no file is created.
  \<open>loadUsers\<close> of the earlier versions leaves a missing file missing; \<open>loadUsers\<close> of
  the complete program fails, with the error of the write, when the directory of the
  file does not exist.
\<close>

theorem loadUsers_draft_creates_nothing:
  "loadUsers_draft Missing = (Inr [], Missing)
   \<and> readFile Missing = ENOENT
   \<and> loadUsers NoDirectory = (Inl WriteFailure, NoDirectory)
   \<and> readFile NoDirectory = ENOENT"
  by (simp add: loadUsers_draft_def loadUsers_def readFile_def saveUsers_cases thenReturn_def)

subsection \<open>Lists\<close>

lemma filter_length_eq_iff: "length (filter p xs) = length xs \<longleftrightarrow> (\<forall>x\<in>set xs. p x)"
proof
  assume "length (filter p xs) = length xs"
  then show "\<forall>x\<in>set xs. p x"
    using length_filter_less [of _ xs p] by fastforce
next
  assume "\<forall>x\<in>set xs. p x"
  then show "length (filter p xs) = length xs" by simp
qed

lemma findIndex_Some:
  "findIndex p xs = Some i \<Longrightarrow> i < length xs \<and> p (xs ! i) \<and> (\<forall>j<i. \<not> p (xs ! j))"
proof (induction xs arbitrary: i)
  case Nil
  then show ?case by simp
next
  case (Cons x xs)
  show ?case
  proof (cases "p x")
    case True
    with Cons.prems show ?thesis by simp
  next
    case False
    with Cons.prems obtain k where k: "findIndex p xs = Some k" "i = Suc k"
      by auto
    from Cons.IH [OF k(1)] False k(2) show ?thesis
      by (auto simp: nth_Cons split: nat.splits)
  qed
qed

lemma findIndex_None: "findIndex p xs = None \<longleftrightarrow> (\<forall>x\<in>set xs. \<not> p x)"
  by (induction xs) auto

lemma list_ex_set: "list_ex p xs \<longleftrightarrow> (\<exists>x\<in>set xs. p x)"
  by (simp add: list_ex_iff)




subsection \<open>Trimming, lower case and the pattern of an email\<close>




lemma toLowerCase_Nil_iff: "toLowerCase s = [] \<longleftrightarrow> s = []"
  by (simp add: toLowerCase_def)

lemma includes_str_iff: "includes_str s k \<longleftrightarrow> (\<exists>ps ss. s = ps @ k @ ss)"
  by (simp add: includes_str_def sublist_def)

lemma classes_deriv: "classes (deriv c r) \<subseteq> classes r"
  by (induction r) auto

lemma deriv_cong: "\<forall>p\<in>classes r. p c = p d \<Longrightarrow> deriv c r = deriv d r"
  by (induction r) auto

text \<open>
  Two strings of the same length whose characters, place by place, lie in the same
  classes of an expression are matched alike.
\<close>

lemma derivs_cong:
  "list_all2 (\<lambda>c d. \<forall>p\<in>classes r. p c = p d) s t \<Longrightarrow> derivs s r = derivs t r"
proof (induction s arbitrary: t r)
  case Nil
  then show ?case by simp
next
  case (Cons c s)
  from Cons.prems obtain d t' where t: "t = d # t'"
    by (cases t) simp_all
  from Cons.prems have cd: "\<forall>p\<in>classes r. p c = p d"
    and rest: "list_all2 (\<lambda>c d. \<forall>p\<in>classes r. p c = p d) s t'"
    unfolding t by simp_all
  from cd have e: "deriv c r = deriv d r" by (rule deriv_cong)
  have sub: "classes (deriv c r) \<subseteq> classes r" by (rule classes_deriv)
  have "list_all2 (\<lambda>c' d'. \<forall>p\<in>classes (deriv c r). p c' = p d') s t'"
    using rest
  proof (rule list_all2_mono)
    fix x y
    assume "\<forall>p\<in>classes r. p x = p y"
    with sub show "\<forall>p\<in>classes (deriv c r). p x = p y" by blast
  qed
  from Cons.IH [OF this] show ?case by (simp add: t e)
qed

lemma of_char_toLowerChar:
  "(of_char (toLowerChar c) :: nat) =
     (let n = of_char c
      in if (65 \<le> n \<and> n \<le> 90) \<or> (192 \<le> n \<and> n \<le> 222 \<and> n \<noteq> 215) then n + 32 else n)"
  by (simp add: toLowerChar_def Let_def)

lemma toLowerChar_space: "isWhiteSpace (toLowerChar c) = isWhiteSpace c"
  by (auto simp: isWhiteSpace_def of_char_toLowerChar Let_def)

lemma toLowerChar_at: "(toLowerChar c = CHR ''@'') = (c = CHR ''@'')"
proof -
  have a: "(toLowerChar c = CHR ''@'') = (of_char (toLowerChar c) = (64::nat))"
    using of_char_eq_iff [of "toLowerChar c" "CHR ''@''", where ?'a = nat] by simp
  have b: "(c = CHR ''@'') = (of_char c = (64::nat))"
    using of_char_eq_iff [of c "CHR ''@''", where ?'a = nat] by simp
  show ?thesis
    unfolding a b of_char_toLowerChar Let_def by auto
qed

lemma toLowerChar_dot: "(toLowerChar c = CHR ''.'') = (c = CHR ''.'')"
proof -
  have a: "(toLowerChar c = CHR ''.'') = (of_char (toLowerChar c) = (46::nat))"
    using of_char_eq_iff [of "toLowerChar c" "CHR ''.''", where ?'a = nat] by simp
  have b: "(c = CHR ''.'') = (of_char c = (46::nat))"
    using of_char_eq_iff [of c "CHR ''.''", where ?'a = nat] by simp
  show ?thesis
    unfolding a b of_char_toLowerChar Let_def by auto
qed

lemma notSpaceAt_toLowerChar: "notSpaceAt (toLowerChar c) = notSpaceAt c"
  by (simp add: notSpaceAt_def toLowerChar_space toLowerChar_at)

text \<open>
  \<open>isValidEmail\<close> does not look at the case: lowering a character keeps it in or out of
  each class of the pattern.
\<close>

lemma isValidEmail_toLowerCase: "isValidEmail (toLowerCase e) = isValidEmail e"
proof -
  have c: "classes emailPattern = {notSpaceAt, \<lambda>c. c = CHR ''@'', \<lambda>c. c = CHR ''.''}"
    unfolding emailPattern_def RPlus_def by (simp add: insert_commute)
  have "\<forall>p\<in>classes emailPattern. p (toLowerChar x) = p x" for x
    unfolding c by (simp add: notSpaceAt_toLowerChar toLowerChar_at toLowerChar_dot)
  then have "list_all2 (\<lambda>c d. \<forall>p\<in>classes emailPattern. p c = p d) (map toLowerChar e) e"
    unfolding list_all2_map1 by (intro list_all2_refl)
  from derivs_cong [OF this] show ?thesis
    by (simp add: isValidEmail_def test_def toLowerCase_def)
qed

lemma isValidEmail_case:
  "toLowerCase a = toLowerCase b \<Longrightarrow> isValidEmail a = isValidEmail b"
  using isValidEmail_toLowerCase [of a] isValidEmail_toLowerCase [of b] by simp

subsection \<open>The age\<close>















subsection \<open>Adding a record\<close>

text \<open>
  C1, as amended. If the email given to \<open>addUser\<close> equals, case-insensitively, the
  email of a record of the loaded store, then \<open>addUser\<close> fails and the file is what it
  was. The error is the conflict when the given email passes \<open>isValidEmail\<close>, which
  it does exactly when the stored email that it matches does; it is the validation
  error otherwise, since the email is validated before the store is searched.
\<close>

theorem addUser_conflict:
  assumes "loadUsers f = (Inr users, f1)"
    and "u \<in> set users" and "toLowerCase (email u) = toLowerCase em"
  shows "addUser newId nm em ag f
           = (Inl (if isValidEmail em then EmailExists else EmailInvalid), f)
         \<and> isValidEmail em = isValidEmail (email u)
         \<and> loadUsers f = (Inr users, f)"
proof -
  from assms(2) have "users \<noteq> []" by auto
  with loadUsers_Inr_cases [OF assms(1)] have f1: "f1 = f" by auto
  from assms(2,3) have ex: "\<exists>u\<in>set users. toLowerCase (email u) = toLowerCase em"
    by blast
  from assms(3) have v: "isValidEmail em = isValidEmail (email u)"
    by (rule isValidEmail_case [OF sym])
  from assms(1) ex have "addUser newId nm em ag f
           = (Inl (if isValidEmail em then EmailExists else EmailInvalid), f)"
    unfolding f1 by (simp add: addUser_def list_ex_set)
  with v assms(1) show ?thesis
    unfolding f1 by simp
qed

text \<open>Witness of C1: a valid email that differs from a stored one only in case.\<close>

theorem addUser_conflict_witness:
  "addUser ''u2'' ''Bob'' ''ANN@x.com'' None
     (Stored [\<lparr>id' = ''u1'', name = ''Ann'', email = ''ann@X.com'', age = Some 30\<rparr>])
   = (Inl EmailExists, Stored [\<lparr>id' = ''u1'', name = ''Ann'', email = ''ann@X.com'', age = Some 30\<rparr>])
   \<and> kind EmailExists = ConflictError"
proof -
  let ?u = "\<lparr>id' = ''u1'', name = ''Ann'', email = ''ann@X.com'', age = Some 30\<rparr>"
  have l: "loadUsers (Stored [?u]) = (Inr [?u], Stored [?u])"
    by (rule loadUsers_Stored)
  have m: "?u \<in> set [?u]"
    by simp
  have c: "toLowerCase (email ?u) = toLowerCase ''ANN@x.com''"
    by code_simp
  have v: "isValidEmail ''ANN@x.com''"
    by code_simp
  from addUser_conflict [OF l m c, of "''u2''" "''Bob''" None] v show ?thesis
    by simp
qed

text \<open>
  Counterexample to C1 as stated: the store holds a record with the malformed email
  "bad"; adding "BAD" matches it case-insensitively, and the error is the validation
  error, not the conflict.
\<close>

theorem addUser_invalid_before_conflict:
  "addUser ''u2'' ''Bob'' ''BAD'' None
     (Stored [\<lparr>id' = ''u1'', name = ''Ann'', email = ''bad'', age = None\<rparr>])
   = (Inl EmailInvalid, Stored [\<lparr>id' = ''u1'', name = ''Ann'', email = ''bad'', age = None\<rparr>])
   \<and> toLowerCase (email \<lparr>id' = ''u1'', name = ''Ann'', email = ''bad'', age = None\<rparr>)
       = toLowerCase ''BAD''
   \<and> kind EmailInvalid \<noteq> ConflictError"
  by code_simp

text \<open>
  The earlier version of \<open>addUser\<close> has no check at all: it always appends. (C1 as
  amended says nothing of it.)
\<close>

lemma addUser_draft_appends:
  assumes "loadUsers_draft f = (Inr users, f1)" and "f \<noteq> NoDirectory"
  shows "addUser_draft newId nm em ag f
     = (Inr \<lparr>id' = newId, name = nm, email = em, age = ag\<rparr>,
        Stored (users @ [\<lparr>id' = newId, name = nm, email = em, age = ag\<rparr>]))"
  using assms loadUsers_draft_Inr(1) [OF assms(1)]
  by (simp add: addUser_draft_def saveUsers_draft_cases Let_def)

subsection \<open>Updating a record\<close>

lemma spread_fields:
  "id' (spread u upd) = id' u"
  "name (spread u upd) = (case upd_name upd of None \<Rightarrow> name u | Some n \<Rightarrow> n)"
  "email (spread u upd) = (case upd_email upd of None \<Rightarrow> email u | Some e \<Rightarrow> e)"
  "age (spread u upd) = (case upd_age upd of None \<Rightarrow> age u | Some a \<Rightarrow> Some a)"
  by (simp_all add: spread_def)

lemma updateUser_success:
  assumes "loadUsers f = (Inr users, f1)" and "updateUser i upd f = (Inr u', f')"
  shows "\<exists>idx. findIndex (\<lambda>u. id' u = i) users = Some idx
           \<and> u' = spread (users ! idx) upd \<and> f' = Stored (users[idx := u'])"
  using assms
  by (auto simp: updateUser_def saved_after_load [OF assms(1)] Let_def
           split: option.splits if_splits)

lemma updateUser_draft_success:
  assumes "loadUsers_draft f = (Inr users, f1)" and "updateUser_draft i upd f = (Inr u', f')"
  shows "\<exists>idx. findIndex (\<lambda>u. id' u = i) users = Some idx
           \<and> u' = spread (users ! idx) upd \<and> f' = Stored (users[idx := u'])"
proof -
  from assms obtain idx where idx: "findIndex (\<lambda>u. id' u = i) users = Some idx"
    and u': "u' = spread (users ! idx) upd"
    and f': "f' = saveUsers_draft (users[idx := u']) f1"
    by (auto simp: updateUser_draft_def Let_def split: option.splits)
  from findIndex_Some [OF idx] have "users \<noteq> []" by auto
  from loadUsers_draft_Inr(2) [OF assms(1) this] f'
  have "f' = Stored (users[idx := u'])" by simp
  with idx u' show ?thesis by simp
qed

text \<open>
  C5. A successful update, in the complete program and in the earlier version alike:
  the record that is replaced is the first one with the given id; the result keeps
  that id, has each field that \<open>updates\<close> gives and keeps each field that it omits;
  the stored list has the same length, holds the result at that index, and is the old
  list at every other index.
\<close>

theorem updateUser_frame:
  assumes "(loadUsers f = (Inr users, f1) \<and> updateUser i upd f = (Inr u', f'))
         \<or> (loadUsers_draft f = (Inr users, f1) \<and> updateUser_draft i upd f = (Inr u', f'))"
  shows "\<exists>idx users'. idx < length users \<and> id' (users ! idx) = i
           \<and> (\<forall>j<idx. id' (users ! j) \<noteq> i)
           \<and> id' u' = i
           \<and> name u' = (case upd_name upd of None \<Rightarrow> name (users ! idx) | Some n \<Rightarrow> n)
           \<and> email u' = (case upd_email upd of None \<Rightarrow> email (users ! idx) | Some e \<Rightarrow> e)
           \<and> age u' = (case upd_age upd of None \<Rightarrow> age (users ! idx) | Some a \<Rightarrow> Some a)
           \<and> f' = Stored users' \<and> length users' = length users \<and> users' ! idx = u'
           \<and> (\<forall>j<length users. j \<noteq> idx \<longrightarrow> users' ! j = users ! j)"
proof -
  from assms obtain idx where idx: "findIndex (\<lambda>u. id' u = i) users = Some idx"
    and u': "u' = spread (users ! idx) upd" and f': "f' = Stored (users[idx := u'])"
    using updateUser_success updateUser_draft_success by blast
  from findIndex_Some [OF idx] have a: "idx < length users" "id' (users ! idx) = i"
    "\<forall>j<idx. id' (users ! j) \<noteq> i" by auto
  let ?us = "users[idx := u']"
  have b: "length ?us = length users" "?us ! idx = u'"
    "\<forall>j<length users. j \<noteq> idx \<longrightarrow> ?us ! j = users ! j"
    using a(1) by simp_all
  show ?thesis
    apply (rule exI [of _ idx])
    apply (rule exI [of _ ?us])
    using a b f' by (simp add: u' spread_fields)
qed

text \<open>Witness of C5: the age of the first of two records is changed.\<close>

theorem updateUser_frame_witness:
  "updateUser ''u1'' \<lparr>upd_name = None, upd_email = None, upd_age = Some 31\<rparr>
     (Stored [\<lparr>id' = ''u1'', name = ''Ann'', email = ''ann@x.com'', age = Some 30\<rparr>,
              \<lparr>id' = ''u2'', name = ''Bob'', email = ''bob@x.com'', age = None\<rparr>])
   = (Inr \<lparr>id' = ''u1'', name = ''Ann'', email = ''ann@x.com'', age = Some 31\<rparr>,
      Stored [\<lparr>id' = ''u1'', name = ''Ann'', email = ''ann@x.com'', age = Some 31\<rparr>,
              \<lparr>id' = ''u2'', name = ''Bob'', email = ''bob@x.com'', age = None\<rparr>])
   \<and> (\<exists>idx users'. idx < 2
        \<and> Stored [\<lparr>id' = ''u1'', name = ''Ann'', email = ''ann@x.com'', age = Some 31\<rparr>,
                  \<lparr>id' = ''u2'', name = ''Bob'', email = ''bob@x.com'', age = None\<rparr>]
            = Stored users'
        \<and> users' ! idx = \<lparr>id' = ''u1'', name = ''Ann'', email = ''ann@x.com'', age = Some 31\<rparr>)"
proof -
  let ?us = "[\<lparr>id' = ''u1'', name = ''Ann'', email = ''ann@x.com'', age = Some 30\<rparr>,
              \<lparr>id' = ''u2'', name = ''Bob'', email = ''bob@x.com'', age = None\<rparr>]"
  let ?upd = "\<lparr>upd_name = None, upd_email = None, upd_age = Some 31\<rparr>"
  let ?u' = "\<lparr>id' = ''u1'', name = ''Ann'', email = ''ann@x.com'', age = Some 31\<rparr>"
  let ?f' = "Stored [?u', \<lparr>id' = ''u2'', name = ''Bob'', email = ''bob@x.com'', age = None\<rparr>]"
  have l: "loadUsers (Stored ?us) = (Inr ?us, Stored ?us)"
    by (rule loadUsers_Stored)
  have r: "updateUser ''u1'' ?upd (Stored ?us) = (Inr ?u', ?f')"
    by code_simp
  from updateUser_frame [of "Stored ?us" ?us "Stored ?us" "''u1''" ?upd ?u' ?f'] l r
  obtain idx users' where "idx < length ?us" "?f' = Stored users'" "users' ! idx = ?u'"
    by blast
  then have "\<exists>idx users'. idx < 2 \<and> ?f' = Stored users' \<and> users' ! idx = ?u'"
    by (intro exI [of _ idx] exI [of _ users']) simp
  with r show ?thesis by blast
qed

text \<open>
  C4, the failing input. \<open>updateUser\<close> of the earlier version checks nothing, although
  its comment announces the check ("check email is valid and unique"): an update whose
  email is malformed, or is the email of another record, succeeds and is written.
  \<open>handleUpdate\<close> of that version passes the trimmed answer on as it is.
\<close>

theorem updateUser_draft_email_unchecked:
  "updateUser_draft ''u1'' \<lparr>upd_name = None, upd_email = Some ''not an email'', upd_age = None\<rparr>
     (Stored [\<lparr>id' = ''u1'', name = ''Ann'', email = ''ann@x.com'', age = Some 30\<rparr>,
              \<lparr>id' = ''u2'', name = ''Bob'', email = ''bob@x.com'', age = None\<rparr>])
   = (Inr \<lparr>id' = ''u1'', name = ''Ann'', email = ''not an email'', age = Some 30\<rparr>,
      Stored [\<lparr>id' = ''u1'', name = ''Ann'', email = ''not an email'', age = Some 30\<rparr>,
              \<lparr>id' = ''u2'', name = ''Bob'', email = ''bob@x.com'', age = None\<rparr>])
   \<and> \<not> isValidEmail ''not an email''
   \<and> updateUser_draft ''u1'' \<lparr>upd_name = None, upd_email = Some ''BOB@x.com'', upd_age = None\<rparr>
     (Stored [\<lparr>id' = ''u1'', name = ''Ann'', email = ''ann@x.com'', age = Some 30\<rparr>,
              \<lparr>id' = ''u2'', name = ''Bob'', email = ''bob@x.com'', age = None\<rparr>])
   = (Inr \<lparr>id' = ''u1'', name = ''Ann'', email = ''BOB@x.com'', age = Some 30\<rparr>,
      Stored [\<lparr>id' = ''u1'', name = ''Ann'', email = ''BOB@x.com'', age = Some 30\<rparr>,
              \<lparr>id' = ''u2'', name = ''Bob'', email = ''bob@x.com'', age = None\<rparr>])
   \<and> toLowerCase ''BOB@x.com'' = toLowerCase ''bob@x.com''"
  by code_simp

text \<open>
  In the complete program the claim holds of every update that \<open>handleUpdate\<close> can
  ask for: no record with the id gives the not-found error, and an email that is given
  and is not empty is checked for its shape and against the records with another id.
\<close>

lemma updateUser_not_found:
  assumes "loadUsers f = (Inr users, f1)" and "\<forall>u\<in>set users. id' u \<noteq> i"
  shows "updateUser i upd f = (Inl UpdateNotFound, f1)"
proof -
  from assms(2) have "findIndex (\<lambda>u. id' u = i) users = None"
    by (simp add: findIndex_None)
  with assms(1) show ?thesis by (simp add: updateUser_def)
qed

lemma updateUser_email_checked:
  assumes "loadUsers f = (Inr users, f1)" and "updateUser i upd f = (Inr u', f')"
    and "upd_email upd = Some e" and "e \<noteq> []"
  shows "isValidEmail e \<and> (\<forall>u\<in>set users. id' u \<noteq> i \<longrightarrow> toLowerCase (email u) \<noteq> toLowerCase e)"
  using assms
  by (auto simp: updateUser_def truthy_def list_ex_set Let_def split: option.splits if_splits)

text \<open>
  \<open>if (updates.email)\<close> is false for the empty string, so \<open>updateUser\<close> itself would
  store an empty email unchecked. \<open>updateUser\<close> is called by \<open>handleUpdate\<close> only, which
  gives an email only when the trimmed answer is not empty: the program never makes
  this call.
\<close>

lemma updateUser_empty_email_unchecked:
  "updateUser ''u1'' \<lparr>upd_name = None, upd_email = Some '''', upd_age = None\<rparr>
     (Stored [\<lparr>id' = ''u1'', name = ''Ann'', email = ''ann@x.com'', age = Some 30\<rparr>])
   = (Inr \<lparr>id' = ''u1'', name = ''Ann'', email = '''', age = Some 30\<rparr>,
      Stored [\<lparr>id' = ''u1'', name = ''Ann'', email = '''', age = Some 30\<rparr>])
   \<and> \<not> isValidEmail ''''"
  by code_simp

subsection \<open>Searching\<close>

text \<open>
  C3, as amended. \<open>searchUsers\<close> trims and lowercases the keyword. If the trimmed
  keyword is empty it returns every record of the loaded store. Otherwise it returns,
  in the store's order, exactly the records in which the keyword is a substring of
  the lowercased id, name or email (complete program), or of the lowercased name or
  email only (earlier version, which does not look at the id).
\<close>

theorem searchUsers_result:
  "(loadUsers f = (Inr users, f1) \<longrightarrow>
      searchUsers keyword f =
        (Inr (if trim keyword = [] then users
              else filter (\<lambda>u. (\<exists>ps ss. toLowerCase (id' u) = ps @ toLowerCase (trim keyword) @ ss)
                             \<or> (\<exists>ps ss. toLowerCase (name u) = ps @ toLowerCase (trim keyword) @ ss)
                             \<or> (\<exists>ps ss. toLowerCase (email u) = ps @ toLowerCase (trim keyword) @ ss))
                     users), f1))
   \<and> (loadUsers_draft f = (Inr users, f1) \<longrightarrow>
      searchUsers_draft keyword f =
        (Inr (if trim keyword = [] then users
              else filter (\<lambda>u. (\<exists>ps ss. toLowerCase (name u) = ps @ toLowerCase (trim keyword) @ ss)
                             \<or> (\<exists>ps ss. toLowerCase (email u) = ps @ toLowerCase (trim keyword) @ ss))
                     users), f1))"
  by (simp add: searchUsers_def searchUsers_draft_def Let_def toLowerCase_Nil_iff includes_str_iff)

text \<open>Witness of C3: one store, the keyword " ANN ", both versions.\<close>

theorem searchUsers_result_witness:
  "searchUsers '' ANN ''
     (Stored [\<lparr>id' = ''u1'', name = ''Ann'', email = ''a@x.com'', age = None\<rparr>,
              \<lparr>id' = ''u2'', name = ''Bob'', email = ''bob@x.com'', age = None\<rparr>,
              \<lparr>id' = ''ann7'', name = ''Cy'', email = ''cy@x.com'', age = None\<rparr>])
   = (Inr [\<lparr>id' = ''u1'', name = ''Ann'', email = ''a@x.com'', age = None\<rparr>,
           \<lparr>id' = ''ann7'', name = ''Cy'', email = ''cy@x.com'', age = None\<rparr>],
      Stored [\<lparr>id' = ''u1'', name = ''Ann'', email = ''a@x.com'', age = None\<rparr>,
              \<lparr>id' = ''u2'', name = ''Bob'', email = ''bob@x.com'', age = None\<rparr>,
              \<lparr>id' = ''ann7'', name = ''Cy'', email = ''cy@x.com'', age = None\<rparr>])
   \<and> searchUsers_draft '' ANN ''
     (Stored [\<lparr>id' = ''u1'', name = ''Ann'', email = ''a@x.com'', age = None\<rparr>,
              \<lparr>id' = ''u2'', name = ''Bob'', email = ''bob@x.com'', age = None\<rparr>,
              \<lparr>id' = ''ann7'', name = ''Cy'', email = ''cy@x.com'', age = None\<rparr>])
   = (Inr [\<lparr>id' = ''u1'', name = ''Ann'', email = ''a@x.com'', age = None\<rparr>],
      Stored [\<lparr>id' = ''u1'', name = ''Ann'', email = ''a@x.com'', age = None\<rparr>,
              \<lparr>id' = ''u2'', name = ''Bob'', email = ''bob@x.com'', age = None\<rparr>,
              \<lparr>id' = ''ann7'', name = ''Cy'', email = ''cy@x.com'', age = None\<rparr>])"
proof -
  let ?us = "[\<lparr>id' = ''u1'', name = ''Ann'', email = ''a@x.com'', age = None\<rparr>,
              \<lparr>id' = ''u2'', name = ''Bob'', email = ''bob@x.com'', age = None\<rparr>,
              \<lparr>id' = ''ann7'', name = ''Cy'', email = ''cy@x.com'', age = None\<rparr>]"
  let ?k = "toLowerCase (trim '' ANN '')"
  have k: "trim '' ANN '' \<noteq> []"
    by code_simp
  have e: "filter (\<lambda>u. includes_str (toLowerCase (id' u)) ?k
                       \<or> includes_str (toLowerCase (name u)) ?k
                       \<or> includes_str (toLowerCase (email u)) ?k) ?us
           = [\<lparr>id' = ''u1'', name = ''Ann'', email = ''a@x.com'', age = None\<rparr>,
              \<lparr>id' = ''ann7'', name = ''Cy'', email = ''cy@x.com'', age = None\<rparr>]"
    by code_simp
  have d: "filter (\<lambda>u. includes_str (toLowerCase (name u)) ?k
                       \<or> includes_str (toLowerCase (email u)) ?k) ?us
           = [\<lparr>id' = ''u1'', name = ''Ann'', email = ''a@x.com'', age = None\<rparr>]"
    by code_simp
  have l: "loadUsers (Stored ?us) = (Inr ?us, Stored ?us)"
    by (rule loadUsers_Stored)
  have m: "loadUsers_draft (Stored ?us) = (Inr ?us, Stored ?us)"
    by (rule loadUsers_draft_Stored)
  from searchUsers_result [of "Stored ?us" ?us "Stored ?us" "'' ANN ''"] l m k
  show ?thesis
    unfolding includes_str_iff [symmetric] e d by simp
qed

text \<open>
  Counterexample to C3 as stated: in the earlier version a record whose id contains
  the keyword, and whose name and email do not, is not returned.
\<close>

theorem searchUsers_draft_ignores_id:
  "searchUsers_draft ''u7''
     (Stored [\<lparr>id' = ''u7'', name = ''Ann'', email = ''ann@x.com'', age = None\<rparr>])
   = (Inr [], Stored [\<lparr>id' = ''u7'', name = ''Ann'', email = ''ann@x.com'', age = None\<rparr>])
   \<and> includes_str (toLowerCase ''u7'') (toLowerCase (trim ''u7''))"
  by code_simp

lemma searchUsers_Stored:
  "searchUsers keyword (Stored users) =
     (Inr (if trim keyword = [] then users
           else filter (\<lambda>u. (\<exists>ps ss. toLowerCase (id' u) = ps @ toLowerCase (trim keyword) @ ss)
                          \<or> (\<exists>ps ss. toLowerCase (name u) = ps @ toLowerCase (trim keyword) @ ss)
                          \<or> (\<exists>ps ss. toLowerCase (email u) = ps @ toLowerCase (trim keyword) @ ss))
                  users), Stored users)"
  by (simp add: searchUsers_def loadUsers_Stored Let_def toLowerCase_Nil_iff includes_str_iff)

subsection \<open>Deleting a record\<close>

lemma deleteUser_not_found:
  assumes "loadUsers f = (Inr users, f1)" and "\<forall>u\<in>set users. id' u \<noteq> i"
  shows "deleteUser i f = (Inl DeleteNotFound, f1)"
  using assms by (simp add: deleteUser_def Let_def filter_length_eq_iff)

lemma deleteUser_found:
  assumes "loadUsers f = (Inr users, f1)" and "\<exists>u\<in>set users. id' u = i"
  shows "deleteUser i f = (Inr True, Stored (filter (\<lambda>u. id' u \<noteq> i) users))"
proof -
  from assms(2) have "length (filter (\<lambda>u. id' u \<noteq> i) users) \<noteq> length users"
    by (auto simp: filter_length_eq_iff)
  with assms(1) show ?thesis
    by (simp add: deleteUser_def saved_after_load [OF assms(1)] Let_def)
qed

text \<open>
  C10. Whenever some record of the loaded store has the given id, \<open>deleteUser\<close> (of
  the complete program and of the earlier version alike) succeeds and writes exactly
  the records with a different id, in their order: every record with that id is
  removed, also when several share it.
\<close>

theorem deleteUser_removes_all:
  assumes "\<exists>u\<in>set users. id' u = i"
  shows "(loadUsers f = (Inr users, f1) \<longrightarrow>
            deleteUser i f = (Inr True, Stored (filter (\<lambda>u. id' u \<noteq> i) users)))
       \<and> (loadUsers_draft f = (Inr users, f1) \<longrightarrow>
            deleteUser_draft i f = (Inr True, Stored (filter (\<lambda>u. id' u \<noteq> i) users)))"
proof -
  from assms have "\<not> (\<forall>u\<in>set users. id' u \<noteq> i)" by blast
  then have n: "length (filter (\<lambda>u. id' u \<noteq> i) users) \<noteq> length users"
    by (simp add: filter_length_eq_iff)
  from assms have ne: "users \<noteq> []" by auto
  show ?thesis
  proof (intro conjI impI)
    assume l: "loadUsers f = (Inr users, f1)"
    with n show "deleteUser i f = (Inr True, Stored (filter (\<lambda>u. id' u \<noteq> i) users))"
      by (simp add: deleteUser_def saved_after_load [OF l] Let_def)
  next
    assume l: "loadUsers_draft f = (Inr users, f1)"
    with n show "deleteUser_draft i f = (Inr True, Stored (filter (\<lambda>u. id' u \<noteq> i) users))"
      by (simp add: deleteUser_draft_def loadUsers_draft_Inr(2) [OF l ne] Let_def)
  qed
qed

text \<open>Witness of C10: two of three records share the id that is deleted.\<close>

theorem deleteUser_removes_all_witness:
  "deleteUser ''a''
     (Stored [\<lparr>id' = ''a'', name = ''Ann'', email = ''ann@x.com'', age = Some 30\<rparr>,
              \<lparr>id' = ''b'', name = ''Bob'', email = ''bob@x.com'', age = None\<rparr>,
              \<lparr>id' = ''a'', name = ''Al'', email = ''al@x.com'', age = None\<rparr>])
   = (Inr True, Stored [\<lparr>id' = ''b'', name = ''Bob'', email = ''bob@x.com'', age = None\<rparr>])
   \<and> deleteUser_draft ''a''
     (Stored [\<lparr>id' = ''a'', name = ''Ann'', email = ''ann@x.com'', age = Some 30\<rparr>,
              \<lparr>id' = ''b'', name = ''Bob'', email = ''bob@x.com'', age = None\<rparr>,
              \<lparr>id' = ''a'', name = ''Al'', email = ''al@x.com'', age = None\<rparr>])
   = (Inr True, Stored [\<lparr>id' = ''b'', name = ''Bob'', email = ''bob@x.com'', age = None\<rparr>])"
proof -
  let ?us = "[\<lparr>id' = ''a'', name = ''Ann'', email = ''ann@x.com'', age = Some 30\<rparr>,
              \<lparr>id' = ''b'', name = ''Bob'', email = ''bob@x.com'', age = None\<rparr>,
              \<lparr>id' = ''a'', name = ''Al'', email = ''al@x.com'', age = None\<rparr>]"
  have e: "\<exists>u\<in>set ?us. id' u = ''a''"
    by simp
  have l: "loadUsers (Stored ?us) = (Inr ?us, Stored ?us)"
    by (rule loadUsers_Stored)
  have d: "loadUsers_draft (Stored ?us) = (Inr ?us, Stored ?us)"
    by (rule loadUsers_draft_Stored)
  from deleteUser_removes_all [OF e, of "Stored ?us" "Stored ?us"] l d
  show ?thesis by simp
qed

text \<open>
  C6, as amended. If some record of the loaded store has the id, \<open>deleteUser\<close>
  succeeds, and a search for the id in the new file returns no record with that id:
  it returns the records with another id in which the trimmed, lowercased id is a
  substring of the lowercased id, name or email (all the remaining records when the
  trimmed id is empty). If no record has the id, \<open>deleteUser\<close> fails with the
  not-found error and writes nothing: the store read back is the same, and the file
  is the same unless it was missing and \<open>loadUsers\<close> created it.
\<close>

theorem deleteUser_then_searchUsers:
  assumes "loadUsers f = (Inr users, f1)"
  shows "((\<exists>u\<in>set users. id' u = i) \<longrightarrow>
            (\<exists>f' found. deleteUser i f = (Inr True, f')
               \<and> searchUsers i f' = (Inr found, f')
               \<and> (\<forall>u\<in>set found. id' u \<noteq> i)
               \<and> found =
                   (if trim i = [] then filter (\<lambda>u. id' u \<noteq> i) users
                    else filter (\<lambda>u. id' u \<noteq> i
                           \<and> ((\<exists>ps ss. toLowerCase (id' u) = ps @ toLowerCase (trim i) @ ss)
                              \<or> (\<exists>ps ss. toLowerCase (name u) = ps @ toLowerCase (trim i) @ ss)
                              \<or> (\<exists>ps ss. toLowerCase (email u) = ps @ toLowerCase (trim i) @ ss)))
                          users)))
       \<and> ((\<forall>u\<in>set users. id' u \<noteq> i) \<longrightarrow>
            deleteUser i f = (Inl DeleteNotFound, f1)
            \<and> loadUsers f1 = (Inr users, f1)
            \<and> (f1 = f \<or> (f = Missing \<and> users = [])))"
proof (intro conjI impI)
  assume ex: "\<exists>u\<in>set users. id' u = i"
  let ?rest = "filter (\<lambda>u. id' u \<noteq> i) users"
  let ?m = "\<lambda>u. (\<exists>ps ss. toLowerCase (id' u) = ps @ toLowerCase (trim i) @ ss)
                \<or> (\<exists>ps ss. toLowerCase (name u) = ps @ toLowerCase (trim i) @ ss)
                \<or> (\<exists>ps ss. toLowerCase (email u) = ps @ toLowerCase (trim i) @ ss)"
  let ?found = "if trim i = [] then ?rest else filter (\<lambda>u. id' u \<noteq> i \<and> ?m u) users"
  have d: "deleteUser i f = (Inr True, Stored ?rest)"
    by (rule deleteUser_found [OF assms ex])
  have ff: "filter ?m ?rest = filter (\<lambda>u. id' u \<noteq> i \<and> ?m u) users"
    unfolding filter_filter by (rule filter_cong) auto
  have "searchUsers i (Stored ?rest)
          = (Inr (if trim i = [] then ?rest else filter ?m ?rest), Stored ?rest)"
    by (simp add: searchUsers_Stored)
  then have s: "searchUsers i (Stored ?rest) = (Inr ?found, Stored ?rest)"
    unfolding ff .
  have n: "\<forall>u\<in>set ?found. id' u \<noteq> i"
    by (cases "trim i = []") simp_all
  show "\<exists>f' found. deleteUser i f = (Inr True, f')
               \<and> searchUsers i f' = (Inr found, f')
               \<and> (\<forall>u\<in>set found. id' u \<noteq> i)
               \<and> found = ?found"
    apply (rule exI [of _ "Stored ?rest"])
    apply (rule exI [of _ ?found])
    using d s n by (intro conjI) (assumption | rule refl)+
next
  assume no: "\<forall>u\<in>set users. id' u \<noteq> i"
  show "deleteUser i f = (Inl DeleteNotFound, f1)"
    by (rule deleteUser_not_found [OF assms no])
  show "loadUsers f1 = (Inr users, f1)"
    by (rule loadUsers_idem [OF assms])
  show "f1 = f \<or> (f = Missing \<and> users = [])"
    using loadUsers_Inr_cases [OF assms] by auto
qed

text \<open>Witness of C6: a deletion followed by an empty search, and a deletion that fails.\<close>

theorem deleteUser_then_searchUsers_witness:
  "deleteUser ''u1''
     (Stored [\<lparr>id' = ''u1'', name = ''Ann'', email = ''ann@x.com'', age = Some 30\<rparr>,
              \<lparr>id' = ''u2'', name = ''Bob'', email = ''bob@x.com'', age = None\<rparr>])
   = (Inr True, Stored [\<lparr>id' = ''u2'', name = ''Bob'', email = ''bob@x.com'', age = None\<rparr>])
   \<and> searchUsers ''u1''
        (Stored [\<lparr>id' = ''u2'', name = ''Bob'', email = ''bob@x.com'', age = None\<rparr>])
      = (Inr [], Stored [\<lparr>id' = ''u2'', name = ''Bob'', email = ''bob@x.com'', age = None\<rparr>])
   \<and> deleteUser ''u9''
     (Stored [\<lparr>id' = ''u1'', name = ''Ann'', email = ''ann@x.com'', age = Some 30\<rparr>,
              \<lparr>id' = ''u2'', name = ''Bob'', email = ''bob@x.com'', age = None\<rparr>])
   = (Inl DeleteNotFound,
      Stored [\<lparr>id' = ''u1'', name = ''Ann'', email = ''ann@x.com'', age = Some 30\<rparr>,
              \<lparr>id' = ''u2'', name = ''Bob'', email = ''bob@x.com'', age = None\<rparr>])"
proof -
  let ?us = "[\<lparr>id' = ''u1'', name = ''Ann'', email = ''ann@x.com'', age = Some 30\<rparr>,
              \<lparr>id' = ''u2'', name = ''Bob'', email = ''bob@x.com'', age = None\<rparr>]"
  have l: "loadUsers (Stored ?us) = (Inr ?us, Stored ?us)"
    by (rule loadUsers_Stored)
  have a: "\<exists>u\<in>set ?us. id' u = ''u1''"
    by simp
  have b: "\<forall>u\<in>set ?us. id' u \<noteq> ''u9''"
    by simp
  have d: "deleteUser ''u1'' (Stored ?us)
             = (Inr True, Stored [\<lparr>id' = ''u2'', name = ''Bob'', email = ''bob@x.com'', age = None\<rparr>])"
    by code_simp
  have s: "searchUsers ''u1''
        (Stored [\<lparr>id' = ''u2'', name = ''Bob'', email = ''bob@x.com'', age = None\<rparr>])
      = (Inr [], Stored [\<lparr>id' = ''u2'', name = ''Bob'', email = ''bob@x.com'', age = None\<rparr>])"
    by code_simp
  from deleteUser_then_searchUsers [OF l, of "''u1''"] a
  obtain f' found where "deleteUser ''u1'' (Stored ?us) = (Inr True, f')"
    and "searchUsers ''u1'' f' = (Inr found, f')"
    by blast
  with d s have "found = []" by simp
  from deleteUser_then_searchUsers [OF l, of "''u9''"] b
  have "deleteUser ''u9'' (Stored ?us) = (Inl DeleteNotFound, Stored ?us)"
    by blast
  with d s show ?thesis by blast
qed

text \<open>
  Counterexample to C6 as stated: the name of another record contains the deleted
  id, so the search for the id after the deletion is not empty.
\<close>

theorem deleteUser_then_searchUsers_nonempty:
  "deleteUser ''u1''
     (Stored [\<lparr>id' = ''u1'', name = ''Ann'', email = ''ann@x.com'', age = Some 30\<rparr>,
              \<lparr>id' = ''u2'', name = ''friend of u1'', email = ''bob@x.com'', age = None\<rparr>])
   = (Inr True,
      Stored [\<lparr>id' = ''u2'', name = ''friend of u1'', email = ''bob@x.com'', age = None\<rparr>])
   \<and> searchUsers ''u1''
        (Stored [\<lparr>id' = ''u2'', name = ''friend of u1'', email = ''bob@x.com'', age = None\<rparr>])
      = (Inr [\<lparr>id' = ''u2'', name = ''friend of u1'', email = ''bob@x.com'', age = None\<rparr>],
         Stored [\<lparr>id' = ''u2'', name = ''friend of u1'', email = ''bob@x.com'', age = None\<rparr>])"
  by code_simp

subsection \<open>The invariant of the store\<close>

















end
